theory Spec2Isabelle
  imports Main "HOL-Library.Sublist"
begin

section \<open>Values, errors and the containers of the BTrees package\<close>

text \<open>
  Resource identifiers are Python integers.  A value handed to an index is \<open>None\<close>, a
  byte string, or something else (an integer stands for every non-string value).
  Exceptions are values of \<open>error\<close>; an operation that raises returns \<open>Inl\<close> with the
  exception and the state as mutated up to the raise, since the objects are mutated in
  place and a raise does not undo what was done before it.
\<close>

type_synonym rid = int

text \<open>
  The keys of an \<open>IOBTree\<close> and the members of an \<open>IITreeSet\<close> are C integers of 32
  bits.  Storing a Python integer outside that range raises \<open>TypeError\<close>; a membership
  test with one finds nothing.
\<close>

definition int32 :: "int \<Rightarrow> bool" where
  "int32 r = (- (2 ^ 31) \<le> r \<and> r < 2 ^ 31)"

datatype error = TypeError | ValueError | KeyError | AttributeError | NameError
  | OSError | AssertionError | IndexError | UnboundLocalError

datatype pyval = PNone | PStr string | PInt int

text \<open>\<open>str.lower()\<close> on a byte string: the ASCII capitals move to small letters.\<close>

definition lower_char :: "char \<Rightarrow> char" where
  "lower_char c =
     (case map_of (zip ''ABCDEFGHIJKLMNOPQRSTUVWXYZ'' ''abcdefghijklmnopqrstuvwxyz'') c of
        Some d \<Rightarrow> d
      | None \<Rightarrow> c)"

definition lower :: "string \<Rightarrow> string" where
  "lower s = map lower_char s"

text \<open>
  An \<open>OOSet\<close> keeps its members ordered and without duplicates.  The sets stored in
  \<open>rids\<close> hold substrings and, in a Path index, \<open>(level, part)\<close> tuples as well; Python 2
  orders byte strings by bytes, tuples by their components, and every string before
  every tuple.
\<close>

datatype entry = Sub string | Tok nat string

fun str_less :: "string \<Rightarrow> string \<Rightarrow> bool" where
  "str_less [] [] = False"
| "str_less [] (y # ys) = True"
| "str_less (x # xs) [] = False"
| "str_less (x # xs) (y # ys) =
     ((of_char x :: nat) < of_char y \<or> (x = y \<and> str_less xs ys))"

fun entry_less :: "entry \<Rightarrow> entry \<Rightarrow> bool" where
  "entry_less (Sub a) (Sub b) = str_less a b"
| "entry_less (Sub a) (Tok m q) = True"
| "entry_less (Tok l p) (Sub b) = False"
| "entry_less (Tok l p) (Tok m q) = (l < m \<or> (l = m \<and> str_less p q))"

fun oo_insert :: "entry \<Rightarrow> entry list \<Rightarrow> entry list" where
  "oo_insert e [] = [e]"
| "oo_insert e (x # xs) =
     (if e = x then x # xs
      else if entry_less e x then e # x # xs
      else x # oo_insert e xs)"

text \<open>
  The one-to-many maps (\<open>OOBTree\<close> from a key to an \<open>IITreeSet\<close> of rids) and the idiom
  \<^verbatim>\<open>if part in index: index[part].insert(rid) else: index[part] = IITreeSet([rid])\<close>.
\<close>

type_synonym 'k ridmap = "'k \<rightharpoonup> rid set"

definition add_rid :: "'k ridmap \<Rightarrow> 'k \<Rightarrow> rid \<Rightarrow> 'k ridmap" where
  "add_rid index part r =
     (case index part of
        Some rs \<Rightarrow> index(part \<mapsto> insert r rs)
      | None \<Rightarrow> index(part \<mapsto> {r}))"

text \<open>\<open>index.get(arg, IISet())\<close>\<close>

definition get_rids :: "'k ridmap \<Rightarrow> 'k \<Rightarrow> rid set" where
  "get_rids index arg = (case index arg of Some rs \<Rightarrow> rs | None \<Rightarrow> {})"

text \<open>\<open>value[a:b]\<close> for \<open>0 \<le> a \<le> b\<close>\<close>

definition slice :: "string \<Rightarrow> nat \<Rightarrow> nat \<Rightarrow> string" where
  "slice v a b = take (b - a) (drop a v)"

section \<open>The String index\<close>

record string_index =
  case_sensitive :: bool
  str_rids :: "rid \<rightharpoonup> entry list"
  str_values :: "string ridmap"
  beginnings :: "string ridmap"
  endings :: "string ridmap"
  middles :: "string ridmap"

definition String_reset :: "'a string_index_scheme \<Rightarrow> 'a string_index_scheme" where
  "String_reset s =
     s\<lparr>str_rids := Map.empty, str_values := Map.empty, beginnings := Map.empty,
       endings := Map.empty, middles := Map.empty\<rparr>"

text \<open>
  The inner loop of \<open>String.learn\<close>, \<^verbatim>\<open>for k in range(len(value)-i)\<close>: every part of
  length \<open>j = i + 1\<close> goes to \<open>middles\<close> and to the set of substrings.
\<close>

definition learn_middle ::
  "string \<Rightarrow> rid \<Rightarrow> nat \<Rightarrow> nat \<Rightarrow> string ridmap \<times> entry list \<Rightarrow> string ridmap \<times> entry list"
where
  "learn_middle v r j k = (\<lambda>(m, substrings).
     let part = slice v k (k + j)
     in (add_rid m part r, oo_insert (Sub part) substrings))"

text \<open>The body of the outer loop, \<^verbatim>\<open>for i in range(len(value))\<close>.\<close>

definition learn_step ::
  "string \<Rightarrow> rid \<Rightarrow> nat \<Rightarrow> 'a string_index_scheme \<times> entry list
     \<Rightarrow> 'a string_index_scheme \<times> entry list"
where
  "learn_step v r i = (\<lambda>(s, substrings).
     let j = i + 1;
         s1 = s\<lparr>beginnings := add_rid (beginnings s) (take j v) r\<rparr>;
         ms = fold (learn_middle v r j) [0..<length v - i] (middles s1, substrings);
         s2 = s1\<lparr>middles := fst ms\<rparr>;
         s3 = s2\<lparr>endings := add_rid (endings s2) (drop i v) r\<rparr>
     in (s3, snd ms))"

definition String_learn ::
  "'a string_index_scheme \<Rightarrow> rid \<Rightarrow> pyval
     \<Rightarrow> (error \<times> 'a string_index_scheme) + 'a string_index_scheme"
where
  "String_learn s r val =
     (case val of
        PStr v0 \<Rightarrow>
          let v = (if case_sensitive s then v0 else lower v0);
              s1 = s\<lparr>str_values := add_rid (str_values s) v r\<rparr>;
              res = fold (learn_step v r) [0..<length v] (s1, [])
          in Inr ((fst res)\<lparr>str_rids := (str_rids (fst res))(r \<mapsto> snd res)\<rparr>)
      | _ \<Rightarrow> Inl (TypeError, s))"

text \<open>
  \<open>String.forget\<close>.  For each member of \<open>rids[rid]\<close>, in the set's order, and each of the
  four maps in the order \<open>values, beginnings, middles, endings\<close>, the body is
  \<^verbatim>\<open>index[substring].remove(rid)\<close> followed by a read of \<^verbatim>\<open>self.substrings\<close>.  The
  class has no attribute of that name, so the read raises \<open>AttributeError\<close>: the body
  never completes, and the loops end at the first member with whatever the first
  \<open>remove\<close> did.  A key that is not a string (a tuple put there by a Path index) is
  never a key of \<open>values\<close>.
\<close>

definition forget_body ::
  "'a string_index_scheme \<Rightarrow> rid \<Rightarrow> entry \<Rightarrow> error \<times> 'a string_index_scheme"
where
  "forget_body s r e =
     (case e of
        Tok l p \<Rightarrow> (KeyError, s)
      | Sub sub \<Rightarrow>
          (case str_values s sub of
             None \<Rightarrow> (KeyError, s)
           | Some rs \<Rightarrow>
               if r \<notin> rs then (KeyError, s)
               else (AttributeError, s\<lparr>str_values := (str_values s)(sub \<mapsto> rs - {r})\<rparr>)))"

definition String_forget ::
  "'a string_index_scheme \<Rightarrow> rid
     \<Rightarrow> (error \<times> 'a string_index_scheme) + 'a string_index_scheme"
where
  "String_forget s r =
     (case str_rids s r of
        None \<Rightarrow> Inl (KeyError, s)
      | Some [] \<Rightarrow> Inr (s\<lparr>str_rids := (str_rids s)(r := None)\<rparr>)
      | Some (e # es) \<Rightarrow> Inl (forget_body s r e))"

text \<open>
  The searches.  \<open>_substring\<close> lowers the argument first when the index is not case
  sensitive (a non-string has no \<open>lower\<close>: \<open>AttributeError\<close>), then checks its type.
\<close>

definition String_substring ::
  "'a string_index_scheme \<Rightarrow> string ridmap \<Rightarrow> pyval \<Rightarrow> error + rid set"
where
  "String_substring s index arg =
     (if \<not> case_sensitive s then
        (case arg of PStr a \<Rightarrow> Inr (get_rids index (lower a)) | _ \<Rightarrow> Inl AttributeError)
      else
        (case arg of PStr a \<Rightarrow> Inr (get_rids index a) | _ \<Rightarrow> Inl TypeError))"

definition String_is :: "'a string_index_scheme \<Rightarrow> pyval \<Rightarrow> error + rid set" where
  "String_is s arg = String_substring s (str_values s) arg"

definition String_startswith :: "'a string_index_scheme \<Rightarrow> pyval \<Rightarrow> error + rid set" where
  "String_startswith s arg = String_substring s (beginnings s) arg"

definition String_contains :: "'a string_index_scheme \<Rightarrow> pyval \<Rightarrow> error + rid set" where
  "String_contains s arg = String_substring s (middles s) arg"

definition String_endswith :: "'a string_index_scheme \<Rightarrow> pyval \<Rightarrow> error + rid set" where
  "String_endswith s arg = String_substring s (endings s) arg"

text \<open>A search result that holds a given rid.\<close>

definition holds :: "error + rid set \<Rightarrow> rid \<Rightarrow> bool" where
  "holds res r = (case res of Inr rs \<Rightarrow> r \<in> rs | Inl e \<Rightarrow> False)"

text \<open>The index \<open>String(case_sensitive)\<close> builds: \<open>reset\<close> leaves the five maps empty.\<close>

definition String_new :: "bool \<Rightarrow> string_index" where
  "String_new cs =
     \<lparr>case_sensitive = cs, str_rids = Map.empty, str_values = Map.empty,
      beginnings = Map.empty, endings = Map.empty, middles = Map.empty\<rparr>"

section \<open>The Enumeration index\<close>

text \<open>
  \<open>enum_default\<close> is \<open>None\<close> when the index was built without a default (the sentinel
  \<open>ENUMERATION_NO_DEFAULT\<close>).
\<close>

record enumeration =
  allowed :: "pyval list"
  enum_default :: "pyval option"
  enum_values :: "rid \<rightharpoonup> pyval"
  enum_rids :: "pyval ridmap"

text \<open>
  The index \<open>Enumeration(*allowed, default=d)\<close> builds when the default, if one is
  given, is among the allowed values.
\<close>

definition Enumeration_new :: "pyval list \<Rightarrow> pyval option \<Rightarrow> enumeration" where
  "Enumeration_new vs d =
     \<lparr>allowed = vs, enum_default = d, enum_values = Map.empty, enum_rids = Map.empty\<rparr>"

text \<open>
  \<open>Enumeration.learn\<close>.  For a value of \<open>None\<close> the first statement evaluated is
  \<^verbatim>\<open>if self.default is MARKER\<close>; the module \<open>indices\<close> binds no name \<open>MARKER\<close> (its
  sentinel is \<open>ENUMERATION_NO_DEFAULT\<close>), so the test raises \<open>NameError\<close> whatever the
  default is.
\<close>

definition Enumeration_learn ::
  "enumeration \<Rightarrow> rid \<Rightarrow> pyval \<Rightarrow> (error \<times> enumeration) + enumeration"
where
  "Enumeration_learn s r val =
     (if val = PNone then Inl (NameError, s)
      else if val \<notin> set (allowed s) then Inl (ValueError, s)
      else Inr (s\<lparr>enum_rids := add_rid (enum_rids s) val r,
                  enum_values := (enum_values s)(r \<mapsto> val)\<rparr>))"

text \<open>
  \<open>Enumeration.forget(self, rid, value)\<close> takes a second argument, which it overwrites
  at once.  \<open>IITreeSet.remove\<close> raises \<open>KeyError\<close> for a missing member.
\<close>

definition Enumeration_forget ::
  "enumeration \<Rightarrow> rid \<Rightarrow> pyval \<Rightarrow> (error \<times> enumeration) + enumeration"
where
  "Enumeration_forget s r unused =
     (case enum_values s r of
        None \<Rightarrow> Inl (KeyError, s)
      | Some val \<Rightarrow>
          (case enum_rids s val of
             None \<Rightarrow> Inl (KeyError, s)
           | Some rs \<Rightarrow>
               if r \<notin> rs then Inl (KeyError, s)
               else
                 let s1 = s\<lparr>enum_rids := (enum_rids s)(val \<mapsto> rs - {r})\<rparr>;
                     s2 = (if rs - {r} = {} then s1\<lparr>enum_rids := (enum_rids s1)(val := None)\<rparr>
                           else s1)
                 in Inr (s2\<lparr>enum_values := (enum_values s2)(r := None)\<rparr>)))"

definition Enumeration_is :: "enumeration \<Rightarrow> pyval \<Rightarrow> rid set" where
  "Enumeration_is s val = get_rids (enum_rids s) val"

section \<open>The Path index\<close>

text \<open>
  \<open>os.sep\<close> on the platforms where paths start with a slash; \<open>str.split(sep)\<close>, which
  always returns at least one part; \<open>str.rstrip(sep)\<close>; \<open>str.startswith(sep)\<close>.
\<close>

definition os_sep :: char where
  "os_sep = CHR ''/''"

fun split_by :: "(char \<Rightarrow> bool) \<Rightarrow> string \<Rightarrow> string list" where
  "split_by P [] = [[]]"
| "split_by P (x # xs) =
     (if P x then [] # split_by P xs
      else (case split_by P xs of
              [] \<Rightarrow> [[x]]
            | p # ps \<Rightarrow> (x # p) # ps))"

definition split_sep :: "string \<Rightarrow> string list" where
  "split_sep s = split_by (\<lambda>x. x = os_sep) s"

definition rstrip_sep :: "string \<Rightarrow> string" where
  "rstrip_sep s = rev (dropWhile (\<lambda>x. x = os_sep) (rev s))"

definition startswith_sep :: "string \<Rightarrow> bool" where
  "startswith_sep s = (case s of [] \<Rightarrow> False | x # xs \<Rightarrow> x = os_sep)"

text \<open>
  A Path index is a String index with more fields.  \<open>Path.reset\<close> rebinds \<open>self.rids\<close>,
  the attribute \<open>String.learn\<close> and \<open>String.forget\<close> use: both classes read and write the
  same map, here \<open>str_rids\<close>.
\<close>

record path_index = string_index +
  root :: string
  path2rid :: "string \<rightharpoonup> rid"
  rid2path :: "rid \<rightharpoonup> string"
  parts :: "(nat \<times> string) ridmap"
  levels :: "nat ridmap"

text \<open>
  The index \<open>Path(root, case_sensitive)\<close> builds for a root that is a directory; without
  the second argument the platform decides the case sensitivity.
\<close>

definition Path_new :: "string \<Rightarrow> bool \<Rightarrow> path_index" where
  "Path_new rt cs =
     \<lparr>case_sensitive = cs, str_rids = Map.empty, str_values = Map.empty,
      beginnings = Map.empty, endings = Map.empty, middles = Map.empty,
      root = rstrip_sep rt, path2rid = Map.empty, rid2path = Map.empty,
      parts = Map.empty, levels = Map.empty\<rparr>"

text \<open>The body of \<^verbatim>\<open>for level in range(len(parts))\<close> in \<open>Path.learn\<close>.\<close>

definition learn_token ::
  "rid \<Rightarrow> string list \<Rightarrow> nat \<Rightarrow> 'a path_index_scheme \<Rightarrow> 'a path_index_scheme"
where
  "learn_token r ps level s =
     (let s1 = s\<lparr>parts := add_rid (parts s) (level, ps ! level) r\<rparr>
      in case str_rids s1 r of
           None \<Rightarrow> s1\<lparr>str_rids := (str_rids s1)(r \<mapsto> [Tok level (ps ! level)])\<rparr>
         | Some es \<Rightarrow>
             s1\<lparr>str_rids := (str_rids s1)(r \<mapsto> oo_insert (Tok level (ps ! level)) es)\<rparr>)"

text \<open>
  \<open>Path.learn\<close> calls \<open>String.learn\<close> first and validates afterwards.  The parts are split
  from \<open>value\<close>, not from the lowered and stripped \<open>path\<close>; after the loop \<open>level\<close> is the
  last index.
\<close>

definition Path_learn ::
  "'a path_index_scheme \<Rightarrow> rid \<Rightarrow> pyval
     \<Rightarrow> (error \<times> 'a path_index_scheme) + 'a path_index_scheme"
where
  "Path_learn s r val =
     (case String_learn s r val of
        Inl err \<Rightarrow> Inl err
      | Inr s1 \<Rightarrow>
          (case val of
             PStr v \<Rightarrow>
               if v \<noteq> [] \<and> \<not> startswith_sep v then Inl (ValueError, s1)
               else
                 let path = rstrip_sep (if case_sensitive s1 then v else lower v);
                     ps = split_sep v;
                     s2 = s1\<lparr>path2rid := (path2rid s1)(path \<mapsto> r),
                             rid2path := (rid2path s1)(r \<mapsto> path)\<rparr>;
                     s3 = fold (learn_token r ps) [0..<length ps] s2;
                     level = length ps - 1
                 in Inr (s3\<lparr>levels := add_rid (levels s3) level r\<rparr>)
           | _ \<Rightarrow> Inl (TypeError, s1)))"

text \<open>
  \<open>Path.forget\<close>.  \<open>String.forget\<close> runs first and, when it returns, has deleted
  \<open>rids[rid]\<close>; the loop that follows reads \<open>rids[rid]\<close> again.  In the token loop a
  member that is a string is never a key of \<open>parts\<close>.
\<close>

fun forget_tokens ::
  "rid \<Rightarrow> entry list \<Rightarrow> int \<Rightarrow> 'a path_index_scheme
     \<Rightarrow> (error \<times> 'a path_index_scheme) + (int \<times> 'a path_index_scheme)"
where
  "forget_tokens r [] level s = Inr (level, s)"
| "forget_tokens r (Sub sub # es) level s = Inl (KeyError, s)"
| "forget_tokens r (Tok l p # es) level s =
     (let level' = (if int l > level then int l else level)
      in case parts s (l, p) of
           None \<Rightarrow> Inl (KeyError, s)
         | Some rs \<Rightarrow>
             if r \<notin> rs then Inl (KeyError, s)
             else if rs - {r} = {}
               then forget_tokens r es level' (s\<lparr>parts := (parts s)((l, p) := None)\<rparr>)
               else forget_tokens r es level' (s\<lparr>parts := (parts s)((l, p) \<mapsto> rs - {r})\<rparr>))"

definition forget_level ::
  "rid \<Rightarrow> int \<Rightarrow> 'a path_index_scheme \<Rightarrow> (error \<times> 'a path_index_scheme) + 'a path_index_scheme"
where
  "forget_level r level s =
     (if level < 0 then Inl (KeyError, s)
      else case levels s (nat level) of
             None \<Rightarrow> Inl (KeyError, s)
           | Some rs \<Rightarrow>
               if r \<notin> rs then Inl (KeyError, s)
               else if rs - {r} = {} then Inr (s\<lparr>levels := (levels s)(nat level := None)\<rparr>)
               else Inr (s\<lparr>levels := (levels s)(nat level \<mapsto> rs - {r})\<rparr>))"

definition forget_identity ::
  "rid \<Rightarrow> 'a path_index_scheme \<Rightarrow> (error \<times> 'a path_index_scheme) + 'a path_index_scheme"
where
  "forget_identity r s =
     (let s1 = s\<lparr>str_rids := (str_rids s)(r := None)\<rparr>
      in case rid2path s1 r of
           None \<Rightarrow> Inl (KeyError, s1)
         | Some path \<Rightarrow>
             (case path2rid s1 path of
                None \<Rightarrow> Inl (KeyError, s1)
              | Some r' \<Rightarrow>
                  Inr (s1\<lparr>path2rid := (path2rid s1)(path := None),
                          rid2path := (rid2path s1)(r := None)\<rparr>)))"

definition Path_forget ::
  "'a path_index_scheme \<Rightarrow> rid \<Rightarrow> (error \<times> 'a path_index_scheme) + 'a path_index_scheme"
where
  "Path_forget s r =
     (case String_forget s r of
        Inl err \<Rightarrow> Inl err
      | Inr s1 \<Rightarrow>
          (case str_rids s1 r of
             None \<Rightarrow> Inl (KeyError, s1)
           | Some es \<Rightarrow>
               (case forget_tokens r es (- 1) s1 of
                  Inl err \<Rightarrow> Inl err
                | Inr (level, s2) \<Rightarrow>
                    (case forget_level r level s2 of
                       Inl err \<Rightarrow> Inl err
                     | Inr s3 \<Rightarrow> forget_identity r s3))))"

section \<open>An installed index, as the catalog calls it\<close>

datatype index = StringIndex string_index | EnumerationIndex enumeration | PathIndex path_index

fun lift_result :: "('a \<Rightarrow> index) \<Rightarrow> (error \<times> 'a) + 'a \<Rightarrow> (error \<times> index) + index" where
  "lift_result C (Inl (e, s)) = Inl (e, C s)"
| "lift_result C (Inr s) = Inr (C s)"

text \<open>
  The call \<^verbatim>\<open>index.learn(rid, value)\<close> of \<open>_add_update\<close>, with the rid that
  \<open>_generate_rid\<close> returned.  The first thing each \<open>learn\<close> does with the rid, once the
  value is accepted, is to put it into an \<open>IITreeSet\<close>: a rid outside 32 bits raises
  \<open>TypeError\<close> there, with nothing changed yet.  \<open>String.learn\<close> gets there after its
  type check, which raises the same exception, and \<open>Path.learn\<close> starts with
  \<open>String.learn\<close>; \<open>Enumeration.learn\<close> gets there after it has refused a bad value.
\<close>

fun Index_learn :: "index \<Rightarrow> rid \<Rightarrow> pyval \<Rightarrow> (error \<times> index) + index" where
  "Index_learn (StringIndex s) r val =
     (if int32 r then lift_result StringIndex (String_learn s r val)
      else Inl (TypeError, StringIndex s))"
| "Index_learn (EnumerationIndex s) r val =
     (case Enumeration_learn s r val of
        Inl (e, s') \<Rightarrow> Inl (e, EnumerationIndex s')
      | Inr s' \<Rightarrow>
          if int32 r then Inr (EnumerationIndex s') else Inl (TypeError, EnumerationIndex s))"
| "Index_learn (PathIndex s) r val =
     (if int32 r then lift_result PathIndex (Path_learn s r val)
      else Inl (TypeError, PathIndex s))"

text \<open>
  The call \<^verbatim>\<open>index.forget(rid)\<close>, with one argument as the index contract and
  \<open>Catalog.crawl_once\<close> have it.  \<open>Enumeration.forget\<close> wants two, so the call raises
  \<open>TypeError\<close> before the method's body runs.
\<close>

fun Index_forget :: "index \<Rightarrow> rid \<Rightarrow> (error \<times> index) + index" where
  "Index_forget (StringIndex s) r = lift_result StringIndex (String_forget s r)"
| "Index_forget (EnumerationIndex s) r = Inl (TypeError, EnumerationIndex s)"
| "Index_forget (PathIndex s) r = lift_result PathIndex (Path_forget s r)"

text \<open>The non-empty contiguous parts of a string, as members of an \<open>OOSet\<close>.\<close>

definition substrings_of :: "string \<Rightarrow> entry set" where
  "substrings_of v = Sub ` {m. m \<noteq> [] \<and> sublist m v}"

text \<open>
  \<open>learn(rid, v)\<close> followed by \<open>forget(rid)\<close>; the exception an outcome carries, if any,
  and the state it leaves.
\<close>

definition learn_then_forget :: "index \<Rightarrow> rid \<Rightarrow> pyval \<Rightarrow> (error \<times> index) + index" where
  "learn_then_forget idx r val =
     (case Index_learn idx r val of
        Inl err \<Rightarrow> Inl err
      | Inr idx1 \<Rightarrow> Index_forget idx1 r)"

definition raised :: "(error \<times> 'a) + 'a \<Rightarrow> error option" where
  "raised res = (case res of Inl (e, s) \<Rightarrow> Some e | Inr s \<Rightarrow> None)"

definition state_of :: "(error \<times> 'a) + 'a \<Rightarrow> 'a" where
  "state_of res = (case res of Inl (e, s) \<Rightarrow> s | Inr s \<Rightarrow> s)"

text \<open>The key under which a String index files a value: lowered unless case sensitive.\<close>

definition String_key :: "'a string_index_scheme \<Rightarrow> string \<Rightarrow> string" where
  "String_key s a = (if case_sensitive s then a else lower a)"

text \<open>
  The specification's side of lowering, said without \<open>lower\<close>: \<open>letters\<close> pairs each
  ASCII capital with its small form; two characters are the same letter when they are
  equal or are such a pair, and two strings are the same but for case when they are so
  character by character.  A search argument names a string to an index when it is that
  string, or, for an index that is not case sensitive, the same but for case.
\<close>

definition letters :: "(char \<times> char) list" where
  "letters = zip ''ABCDEFGHIJKLMNOPQRSTUVWXYZ'' ''abcdefghijklmnopqrstuvwxyz''"

definition same_letter :: "char \<Rightarrow> char \<Rightarrow> bool" where
  "same_letter x y = (x = y \<or> (x, y) \<in> set letters \<or> (y, x) \<in> set letters)"

definition same_but_case :: "string \<Rightarrow> string \<Rightarrow> bool" where
  "same_but_case a b = list_all2 same_letter a b"

definition String_names :: "'a string_index_scheme \<Rightarrow> string \<Rightarrow> string \<Rightarrow> bool" where
  "String_names s a b = (if case_sensitive s then a = b else same_but_case a b)"

section \<open>Set operations of BTrees and the searches of the Path index\<close>

text \<open>
  A search returns an \<open>IISet\<close> or, by a bare \<^verbatim>\<open>return\<close>, \<open>None\<close>.  The functions of
  \<open>BTrees.IIBTree\<close>, as the package documents them: \<open>intersection\<close> returns the other
  argument when one is \<open>None\<close>; \<open>difference(c1, c2)\<close> is \<open>None\<close> when \<open>c1\<close> is and \<open>c1\<close>
  when \<open>c2\<close> is \<open>None\<close>; \<open>multiunion\<close> takes a sequence of sets and refuses \<open>None\<close> with
  \<open>TypeError\<close>.
\<close>

type_synonym result = "rid set option"

definition intersection :: "result \<Rightarrow> result \<Rightarrow> result" where
  "intersection c1 c2 =
     (case c1 of
        None \<Rightarrow> c2
      | Some a \<Rightarrow> (case c2 of None \<Rightarrow> Some a | Some b \<Rightarrow> Some (a \<inter> b)))"

definition difference :: "result \<Rightarrow> result \<Rightarrow> result" where
  "difference c1 c2 =
     (case c1 of
        None \<Rightarrow> None
      | Some a \<Rightarrow> (case c2 of None \<Rightarrow> Some a | Some b \<Rightarrow> Some (a - b)))"

fun multiunion :: "result list \<Rightarrow> error + rid set" where
  "multiunion [] = Inr {}"
| "multiunion (None # xs) = Inl TypeError"
| "multiunion (Some x # xs) =
     (case multiunion xs of Inl e \<Rightarrow> Inl e | Inr u \<Rightarrow> Inr (x \<union> u))"

text \<open>
  \<open>str.split()\<close> on whitespace, \<open>str.isdigit()\<close>, \<open>int(s)\<close> and \<open>str(n)\<close> for the digits
  of a limit, \<open>sep.join(parts)\<close>.
\<close>

definition is_space :: "char \<Rightarrow> bool" where
  "is_space c = (c \<in> set [CHR 0x20, CHR 0x09, CHR 0x0A, CHR 0x0B, CHR 0x0C, CHR 0x0D])"

definition split_ws :: "string \<Rightarrow> string list" where
  "split_ws s = filter (\<lambda>w. w \<noteq> []) (split_by is_space s)"

definition digit_val :: "char \<Rightarrow> nat option" where
  "digit_val c = map_of (zip ''0123456789'' [0, 1, 2, 3, 4, 5, 6, 7, 8, 9]) c"

definition isdigit :: "string \<Rightarrow> bool" where
  "isdigit s = (s \<noteq> [] \<and> list_all (\<lambda>c. digit_val c \<noteq> None) s)"

definition int_of_digits :: "string \<Rightarrow> nat" where
  "int_of_digits s = fold (\<lambda>c n. 10 * n + (case digit_val c of Some d \<Rightarrow> d | None \<Rightarrow> 0)) s 0"

fun str_nat :: "nat \<Rightarrow> string" where
  "str_nat n =
     (if n < 10 then [''0123456789'' ! n]
      else str_nat (n div 10) @ [''0123456789'' ! (n mod 10)])"

fun join_sep :: "string list \<Rightarrow> string" where
  "join_sep [] = []"
| "join_sep [p] = p"
| "join_sep (p # q # ps) = p @ os_sep # join_sep (q # ps)"

text \<open>One side of a limits specification: empty is \<open>None\<close>, otherwise digits.\<close>

definition parse_limit :: "string \<Rightarrow> error + nat option" where
  "parse_limit s =
     (if s = [] then Inr None
      else if \<not> isdigit s then Inl ValueError
      else Inr (Some (int_of_digits s)))"

definition parse_limits :: "string \<Rightarrow> error + (nat option \<times> nat option)" where
  "parse_limits limits =
     (if length (filter (\<lambda>c. c = CHR '':'') limits) \<noteq> 1 then Inl ValueError
      else case split_by (\<lambda>c. c = CHR '':'') limits of
             [u, l] \<Rightarrow>
               (case parse_limit u of
                  Inl e \<Rightarrow> Inl e
                | Inr up \<Rightarrow>
                    (case parse_limit l of
                       Inl e \<Rightarrow> Inl e
                     | Inr lo \<Rightarrow>
                         (case (up, lo) of
                            (Some a, Some b) \<Rightarrow>
                              if a > b then Inl ValueError else Inr (up, lo)
                          | _ \<Rightarrow> Inr (up, lo))))
           | _ \<Rightarrow> Inl ValueError)"

text \<open>\<open>Path._path_and_limits\<close>; an argument that is not a string has no \<open>split\<close>.\<close>

definition Path_path_and_limits ::
  "'a path_index_scheme \<Rightarrow> pyval \<Rightarrow> error + (string \<times> nat option \<times> nat option)"
where
  "Path_path_and_limits s arg =
     (case arg of
        PStr a \<Rightarrow>
          (case split_ws a of
             [p] \<Rightarrow>
               (let path = (if p = [os_sep] then [] else p)
                in Inr (if \<not> case_sensitive s then lower path else path, None, None))
           | [p, limits] \<Rightarrow>
               (case parse_limits limits of
                  Inl e \<Rightarrow> Inl e
                | Inr (up, lo) \<Rightarrow>
                    (let path = (if p = [os_sep] then [] else p)
                     in Inr (if \<not> case_sensitive s then lower path else path, up, lo)))
           | _ \<Rightarrow> Inl AssertionError)
      | _ \<Rightarrow> Inl AttributeError)"

text \<open>
  The loops of \<open>Path.below\<close>: the intersection over the levels of the path (a missing
  key raises), and the two loops over the level window, each of which stops at the first
  level that \<open>levels\<close> has no entry for.
\<close>

fun intersect_parts ::
  "(nat \<times> string) ridmap \<Rightarrow> string list \<Rightarrow> nat list \<Rightarrow> result \<Rightarrow> error + result"
where
  "intersect_parts pm ps [] rids = Inr rids"
| "intersect_parts pm ps (level # ls) rids =
     (case pm (level, ps ! level) of
        None \<Rightarrow> Inl KeyError
      | Some rs \<Rightarrow> intersect_parts pm ps ls (intersection rids (Some rs)))"

fun subtract_levels :: "nat ridmap \<Rightarrow> nat list \<Rightarrow> result \<Rightarrow> result" where
  "subtract_levels lv [] rids = rids"
| "subtract_levels lv (i # is) rids =
     (case lv i of
        None \<Rightarrow> rids
      | Some rs \<Rightarrow> subtract_levels lv is (difference rids (Some rs)))"

fun collect_levels :: "nat ridmap \<Rightarrow> nat list \<Rightarrow> result list" where
  "collect_levels lv [] = []"
| "collect_levels lv (i # is) =
     (case lv i of
        None \<Rightarrow> []
      | Some rs \<Rightarrow> Some rs # collect_levels lv is)"

definition Path_below :: "'a path_index_scheme \<Rightarrow> pyval \<Rightarrow> error + result" where
  "Path_below s arg =
     (case Path_path_and_limits s arg of
        Inl e \<Rightarrow> Inl e
      | Inr (path, up, lo) \<Rightarrow>
          (case path2rid s path of
             None \<Rightarrow> Inr None
           | Some r \<Rightarrow>
               (let ps = split_sep path; level = length ps - 1
                in case intersect_parts (parts s) ps [0..<length ps] None of
                     Inl e \<Rightarrow> Inl e
                   | Inr None \<Rightarrow> Inr (Some {})
                   | Inr (Some rids0) \<Rightarrow>
                       (let rids1 =
                              (case up of
                                 None \<Rightarrow> Some rids0
                               | Some u \<Rightarrow>
                                   subtract_levels (levels s) [level..<u + level] (Some rids0))
                        in case lo of
                             None \<Rightarrow> Inr rids1
                           | Some l \<Rightarrow>
                               (case multiunion (collect_levels (levels s) [level..<l + level]) of
                                  Inl e \<Rightarrow> Inl e
                                | Inr u \<Rightarrow> Inr (intersection rids1 (Some u)))))))"

text \<open>
  \<open>Path.above\<close>: one call of \<open>below\<close> per ancestor, on the string built from the template.
  The union is bound to a local name and the method ends there, so what it returns is
  \<open>None\<close>.
\<close>

fun above_loop ::
  "'a path_index_scheme \<Rightarrow> string \<Rightarrow> string list \<Rightarrow> nat list \<Rightarrow> error + result list"
where
  "above_loop s limits ps [] = Inr []"
| "above_loop s limits ps (level # ls) =
     (let joined = join_sep (take (level + 1) ps);
          ancestor = (if joined = [] then ''/'' else joined)
      in case Path_below s (PStr (ancestor @ '' '' @ limits)) of
           Inl e \<Rightarrow> Inl e
         | Inr res \<Rightarrow>
             (case above_loop s limits ps ls of
                Inl e \<Rightarrow> Inl e
              | Inr rest \<Rightarrow> Inr (res # rest)))"

definition Path_above :: "'a path_index_scheme \<Rightarrow> pyval \<Rightarrow> error + result" where
  "Path_above s arg =
     (case Path_path_and_limits s arg of
        Inl e \<Rightarrow> Inl e
      | Inr (path, up, lo) \<Rightarrow>
          (case path2rid s path of
             None \<Rightarrow> Inr None
           | Some r \<Rightarrow>
               (let limits =
                      (if up = None \<and> lo = None then ''0:1''
                       else (case up of None \<Rightarrow> [] | Some u \<Rightarrow> str_nat u) @ '':'' @
                            (case lo of None \<Rightarrow> [] | Some l \<Rightarrow> str_nat l));
                    ps = split_sep path
                in case above_loop s limits ps [0..<length ps] of
                     Inl e \<Rightarrow> Inl e
                   | Inr rids \<Rightarrow>
                       (case multiunion rids of
                          Inl e \<Rightarrow> Inl e
                        | Inr u \<Rightarrow> Inr None))))"

text \<open>
  The levels of \<open>[a, b)\<close> that come before the first level with no entry in \<open>levels\<close>:
  those the window loops of \<open>below\<close> reach.
\<close>

definition levels_reached :: "nat ridmap \<Rightarrow> nat \<Rightarrow> nat \<Rightarrow> nat set" where
  "levels_reached lv a b = {i. a \<le> i \<and> i < b \<and> {a..i} \<subseteq> dom lv}"

text \<open>
  The level window as \<open>below\<close> applies it to a set of rids found at \<open>level\<close>: with an
  upper limit, the rids of the reached levels of \<open>[level, level + upper)\<close> are taken out;
  with a lower limit, only the rids of the reached levels of \<open>[level, level + lower)\<close>
  are kept.
\<close>

definition level_window ::
  "'a path_index_scheme \<Rightarrow> nat \<Rightarrow> nat option \<Rightarrow> nat option \<Rightarrow> rid set \<Rightarrow> rid set"
where
  "level_window s level up lo R =
     (let R1 = (case up of
                  None \<Rightarrow> R
                | Some u \<Rightarrow>
                    R - (\<Union>i\<in>levels_reached (levels s) level (level + u). get_rids (levels s) i))
      in case lo of
           None \<Rightarrow> R1
         | Some l \<Rightarrow>
             R1 \<inter> (\<Union>i\<in>levels_reached (levels s) level (level + l). get_rids (levels s) i))"

section \<open>The Collection\<close>

text \<open>
  A term of a grouping is \<open>(operation, query, (call, arg))\<close>: the operation is \<open>None\<close> or
  one of the functions \<open>intersection\<close> and \<open>difference\<close>; the call is \<open>None\<close> or a search
  method bound to an index of the catalog, which returns a result or raises.  \<open>parse\<close>
  followed by \<open>validate\<close> turns a constraint string into a query, a search and its
  argument by looking the index and the search up in the catalog; the builders take the
  two together as the function \<open>resolve\<close>.  The properties \<open>limit\<close> and \<open>sort\<close> play no
  part in \<open>refresh\<close> and are left out.
\<close>

type_synonym query = "string option \<times> string option \<times> string option"
type_synonym search = "pyval \<Rightarrow> error + result"
type_synonym cterm = "(result \<Rightarrow> result \<Rightarrow> result) option \<times> query \<times> search option \<times> pyval"
type_synonym resolver = "string \<Rightarrow> error + (query \<times> search \<times> pyval)"

record collection =
  constraints :: "cterm list list option"
  data :: result

definition Collection_init :: "resolver \<Rightarrow> string option \<Rightarrow> error + collection" where
  "Collection_init resolve constraint =
     (case constraint of
        None \<Rightarrow>
          Inr \<lparr>constraints = Some [[(None, (None, None, None), None, PNone)]], data = None\<rparr>
      | Some c \<Rightarrow>
          (case resolve c of
             Inl e \<Rightarrow> Inl e
           | Inr (query, call, arg) \<Rightarrow>
               Inr \<lparr>constraints = Some [[(None, query, Some call, arg)]], data = None\<rparr>))"

text \<open>\<^verbatim>\<open>self.constraints[-1].append(term)\<close>\<close>

definition append_last :: "collection \<Rightarrow> cterm \<Rightarrow> error + collection" where
  "append_last k t =
     (case constraints k of
        None \<Rightarrow> Inl TypeError
      | Some gs \<Rightarrow>
          if gs = [] then Inl IndexError
          else Inr (k\<lparr>constraints := Some (butlast gs @ [last gs @ [t]])\<rparr>))"

definition Collection_AND :: "resolver \<Rightarrow> collection \<Rightarrow> string \<Rightarrow> error + collection" where
  "Collection_AND resolve k constraint =
     (case resolve constraint of
        Inl e \<Rightarrow> Inl e
      | Inr (query, call, arg) \<Rightarrow> append_last k (Some intersection, query, Some call, arg))"

definition Collection_NOT :: "resolver \<Rightarrow> collection \<Rightarrow> string \<Rightarrow> error + collection" where
  "Collection_NOT resolve k constraint =
     (case resolve constraint of
        Inl e \<Rightarrow> Inl e
      | Inr (query, call, arg) \<Rightarrow> append_last k (Some difference, query, Some call, arg))"

text \<open>\<^verbatim>\<open>self.constraints.append([term])\<close>\<close>

definition append_grouping :: "collection \<Rightarrow> cterm \<Rightarrow> error + collection" where
  "append_grouping k t =
     (case constraints k of
        None \<Rightarrow> Inl AttributeError
      | Some gs \<Rightarrow> Inr (k\<lparr>constraints := Some (gs @ [[t]])\<rparr>))"

definition Collection_OR :: "resolver \<Rightarrow> collection \<Rightarrow> string \<Rightarrow> error + collection" where
  "Collection_OR resolve k constraint =
     (if constraint = [] then append_grouping k (None, (None, None, None), None, PNone)
      else case resolve constraint of
             Inl e \<Rightarrow> Inl e
           | Inr (query, call, arg) \<Rightarrow> append_grouping k (None, query, Some call, arg))"

text \<open>
  \<open>Collection.refresh\<close>.  The local \<open>result\<close> lives across the groupings: it is \<open>None\<close> here
  while unbound and \<open>Some\<close> of its value once assigned.  \<open>all\<close> is the rid-set of the
  catalog.  In \<^verbatim>\<open>operation(result, call(arg))\<close> the read of \<open>result\<close> comes before the
  call.
\<close>

fun refresh_grouping :: "rid set \<Rightarrow> cterm list \<Rightarrow> result option \<Rightarrow> error + result option" where
  "refresh_grouping all [] res = Inr res"
| "refresh_grouping all ((operation, query, call, arg) # ts) res =
     (case operation of
        None \<Rightarrow>
          (case call of
             None \<Rightarrow> refresh_grouping all ts (Some (Some all))
           | Some f \<Rightarrow>
               (case f arg of
                  Inl e \<Rightarrow> Inl e
                | Inr found \<Rightarrow> refresh_grouping all ts (Some found)))
      | Some oper \<Rightarrow>
          (case call of
             None \<Rightarrow> Inl AssertionError
           | Some f \<Rightarrow>
               (case res of
                  None \<Rightarrow> Inl UnboundLocalError
                | Some acc \<Rightarrow>
                    (case f arg of
                       Inl e \<Rightarrow> Inl e
                     | Inr found \<Rightarrow> refresh_grouping all ts (Some (oper acc found))))))"

fun refresh_groupings ::
  "rid set \<Rightarrow> cterm list list \<Rightarrow> result option \<Rightarrow> result list \<Rightarrow> error + result list"
where
  "refresh_groupings all [] res results = Inr results"
| "refresh_groupings all (g # gs) res results =
     (case refresh_grouping all g res of
        Inl e \<Rightarrow> Inl e
      | Inr None \<Rightarrow> Inl UnboundLocalError
      | Inr (Some None) \<Rightarrow> refresh_groupings all gs (Some None) results
      | Inr (Some (Some rs)) \<Rightarrow> refresh_groupings all gs (Some (Some rs)) (results @ [Some rs]))"

definition Collection_refresh :: "rid set \<Rightarrow> collection \<Rightarrow> (error \<times> collection) + collection" where
  "Collection_refresh all k =
     (case constraints k of
        None \<Rightarrow> Inr (k\<lparr>data := Some all\<rparr>)
      | Some gs \<Rightarrow>
          (case refresh_groupings all gs None [] of
             Inl e \<Rightarrow> Inl (e, k)
           | Inr results \<Rightarrow>
               (case multiunion results of
                  Inl e \<Rightarrow> Inl (e, k)
                | Inr u \<Rightarrow> Inr (k\<lparr>data := Some u\<rparr>))))"

section \<open>The Catalog\<close>

text \<open>
  A Resource is known to the catalog by its attributes only.  \<open>ridtimes\<close> is an \<open>OOBTree\<close>
  that the unindex pass iterates: its entries in key order.  \<open>resources\<close> is a map,
  \<open>rids\<close> a set.  The file system is the modification time of each path that exists.
\<close>

type_synonym resource = "string \<rightharpoonup> pyval"
type_synonym filesystem = "string \<rightharpoonup> int"

record catalog =
  indices :: "(string \<times> index) list"
  ridtimes :: "(string \<times> rid \<times> int) list"
  resources :: "rid \<rightharpoonup> resource"
  cat_rids :: "rid set"
  v_nextrid :: "int option"

fun bt_set :: "string \<Rightarrow> 'v \<Rightarrow> (string \<times> 'v) list \<Rightarrow> (string \<times> 'v) list" where
  "bt_set k v [] = [(k, v)]"
| "bt_set k v ((k', v') # kvs) =
     (if k = k' then (k, v) # kvs
      else if str_less k k' then (k, v) # (k', v') # kvs
      else (k', v') # bt_set k v kvs)"

definition bt_del :: "string \<Rightarrow> (string \<times> 'v) list \<Rightarrow> (string \<times> 'v) list" where
  "bt_del k kvs = filter (\<lambda>kv. fst kv \<noteq> k) kvs"

definition Catalog_reset :: "catalog \<Rightarrow> catalog" where
  "Catalog_reset c =
     c\<lparr>indices := map (\<lambda>(name, idx). (name,
          case idx of
            StringIndex s \<Rightarrow> StringIndex (String_reset s)
          | EnumerationIndex e \<Rightarrow>
              EnumerationIndex (e\<lparr>enum_values := Map.empty, enum_rids := Map.empty\<rparr>)
          | PathIndex p \<Rightarrow>
              PathIndex ((String_reset p)\<lparr>path2rid := Map.empty, rid2path := Map.empty,
                parts := Map.empty, levels := Map.empty\<rparr>))) (indices c),
       ridtimes := [], resources := Map.empty, cat_rids := {}\<rparr>"

text \<open>
  \<open>Catalog._generate_rid\<close>.  The results of the successive calls of
  \<^verbatim>\<open>random.randint(0, 2**31)\<close> are given as a list; each is an integer \<open>N\<close> with
  \<open>0 \<le> N \<le> 2^31\<close>, both ends included.  The loop has no bound of its own: when the
  list runs out while it is still looking, the outcome is \<open>None\<close>.
\<close>

function Catalog_generate_rid ::
  "'a catalog_scheme \<Rightarrow> int list \<Rightarrow> (rid \<times> 'a catalog_scheme \<times> int list) option"
where
  "Catalog_generate_rid c rand =
     (case v_nextrid c of
        None \<Rightarrow>
          (case rand of
             [] \<Rightarrow> None
           | x # rand' \<Rightarrow> Catalog_generate_rid (c\<lparr>v_nextrid := Some x\<rparr>) rand')
      | Some r \<Rightarrow>
          (let c1 = c\<lparr>v_nextrid := Some (r + 1)\<rparr>
           in if r \<notin> cat_rids c1 then Some (r, c1, rand)
              else Catalog_generate_rid (c1\<lparr>v_nextrid := None\<rparr>) rand))"
  by pat_completeness auto
termination
  by (relation "measure (\<lambda>(c, rand). 2 * length rand + (if v_nextrid c = None then 0 else 1))")
     auto

text \<open>
  The loop over the installed indices in \<open>_add_update\<close>: an index whose name is not an
  attribute of the resource is skipped; a \<open>learn\<close> that raises ends the loop with the
  indices as they are at that moment.
\<close>

fun learn_all ::
  "resource \<Rightarrow> rid \<Rightarrow> (string \<times> index) list
     \<Rightarrow> (error \<times> (string \<times> index) list) + (string \<times> index) list"
where
  "learn_all res r [] = Inr []"
| "learn_all res r ((name, idx) # rest) =
     (case res name of
        None \<Rightarrow>
          (case learn_all res r rest of
             Inl (e, rest') \<Rightarrow> Inl (e, (name, idx) # rest')
           | Inr rest' \<Rightarrow> Inr ((name, idx) # rest'))
      | Some val \<Rightarrow>
          (case Index_learn idx r val of
             Inl (e, idx') \<Rightarrow> Inl (e, (name, idx') # rest)
           | Inr idx' \<Rightarrow>
               (case learn_all res r rest of
                  Inl (e, rest') \<Rightarrow> Inl (e, (name, idx') # rest')
                | Inr rest' \<Rightarrow> Inr ((name, idx') # rest'))))"

text \<open>
  The part of \<open>_add_update\<close> after the rid and the modification time are known.  The
  three writes come in the order \<open>ridtimes\<close>, \<open>resources\<close>, \<open>rids\<close>.  \<open>ridtimes\<close> is an
  \<open>OOBTree\<close> and takes any rid in its value; \<^verbatim>\<open>self.resources[rid] = resource_\<close>
  raises \<open>TypeError\<close> for a rid outside 32 bits, when \<open>ridtimes\<close> is already written.
  \<^verbatim>\<open>self.rids.insert(rid)\<close> would raise for the same rids and is not reached with one.
\<close>

definition index_resource ::
  "(string \<Rightarrow> resource) \<Rightarrow> catalog \<Rightarrow> string \<Rightarrow> rid \<Rightarrow> int \<Rightarrow> (error \<times> catalog) + catalog"
where
  "index_resource Resource c path r modtime =
     (let res = Resource path
      in case learn_all res r (indices c) of
           Inl (e, idxs) \<Rightarrow> Inl (e, c\<lparr>indices := idxs\<rparr>)
         | Inr idxs \<Rightarrow>
             (let c1 = c\<lparr>indices := idxs,
                         ridtimes := bt_set path (r, modtime) (ridtimes c)\<rparr>
              in if \<not> int32 r then Inl (TypeError, c1)
                 else Inr (c1\<lparr>resources := (resources c1)(r \<mapsto> res),
                              cat_rids := insert r (cat_rids c1)\<rparr>)))"

text \<open>
  \<open>Catalog._add_update\<close>; \<open>os.stat\<close> of a path that does not exist raises \<open>OSError\<close>.
  The outcome is \<open>None\<close> when \<open>_generate_rid\<close> has not returned.
\<close>

definition Catalog_add_update ::
  "(string \<Rightarrow> resource) \<Rightarrow> filesystem \<Rightarrow> catalog \<Rightarrow> int list \<Rightarrow> string
     \<Rightarrow> (((error \<times> catalog) + catalog) \<times> int list) option"
where
  "Catalog_add_update Resource fs c rand path =
     (case map_of (ridtimes c) path of
        None \<Rightarrow>
          (case Catalog_generate_rid c rand of
             None \<Rightarrow> None
           | Some (r, c1, rand1) \<Rightarrow>
               (case fs path of
                  None \<Rightarrow> Some (Inl (OSError, c1), rand1)
                | Some modtime \<Rightarrow> Some (index_resource Resource c1 path r modtime, rand1)))
      | Some (r, oldtime) \<Rightarrow>
          (case fs path of
             None \<Rightarrow> Some (Inl (OSError, c), rand)
           | Some modtime \<Rightarrow>
               if modtime \<noteq> oldtime then Some (index_resource Resource c path r modtime, rand)
               else Some (Inr c, rand)))"

text \<open>The unindex pass of \<open>crawl_once\<close>.\<close>

fun forget_all ::
  "rid \<Rightarrow> (string \<times> index) list \<Rightarrow> (error \<times> (string \<times> index) list) + (string \<times> index) list"
where
  "forget_all r [] = Inr []"
| "forget_all r ((name, idx) # rest) =
     (case Index_forget idx r of
        Inl (e, idx') \<Rightarrow> Inl (e, (name, idx') # rest)
      | Inr idx' \<Rightarrow>
          (case forget_all r rest of
             Inl (e, rest') \<Rightarrow> Inl (e, (name, idx') # rest')
           | Inr rest' \<Rightarrow> Inr ((name, idx') # rest')))"

fun unindex_loop ::
  "filesystem \<Rightarrow> (string \<times> rid \<times> int) list \<Rightarrow> catalog \<Rightarrow> string list
     \<Rightarrow> (error \<times> catalog) + (catalog \<times> string list)"
where
  "unindex_loop fs [] c to_delete = Inr (c, to_delete)"
| "unindex_loop fs ((path, r, t) # rest) c to_delete =
     (if fs path \<noteq> None then unindex_loop fs rest c to_delete
      else case forget_all r (indices c) of
             Inl (e, idxs) \<Rightarrow> Inl (e, c\<lparr>indices := idxs\<rparr>)
           | Inr idxs \<Rightarrow>
               (let c1 = c\<lparr>indices := idxs\<rparr>
                in case resources c1 r of
                     None \<Rightarrow> Inl (KeyError, c1)
                   | Some res \<Rightarrow>
                       (let c2 = c1\<lparr>resources := (resources c1)(r := None)\<rparr>
                        in if r \<notin> cat_rids c2 then Inl (KeyError, c2)
                           else unindex_loop fs rest (c2\<lparr>cat_rids := cat_rids c2 - {r}\<rparr>)
                                  (to_delete @ [path]))))"

definition Catalog_unindex :: "filesystem \<Rightarrow> catalog \<Rightarrow> (error \<times> catalog) + catalog" where
  "Catalog_unindex fs c =
     (case unindex_loop fs (ridtimes c) c [] of
        Inl err \<Rightarrow> Inl err
      | Inr (c1, to_delete) \<Rightarrow> Inr (c1\<lparr>ridtimes := fold bt_del to_delete (ridtimes c1)\<rparr>))"





text \<open>The invariant the specification states for the three maps of the catalog.\<close>

definition catalog_inv :: "catalog \<Rightarrow> bool" where
  "catalog_inv c =
     (card (dom (resources c)) = card (cat_rids c) \<and>
      card (cat_rids c) = length (ridtimes c) \<and>
      list_all (\<lambda>(path, r, t). r \<in> cat_rids c \<and> r \<in> dom (resources c)) (ridtimes c))"

text \<open>The range the specification gives resource identifiers: \<open>[0, 2^31)\<close>.\<close>

definition valid_rid :: "rid \<Rightarrow> bool" where
  "valid_rid r = (0 \<le> r \<and> r < 2 ^ 31)"



section \<open>Properties of the String index\<close>

lemma get_add_same: "r \<in> get_rids (add_rid m p r) p"
  by (simp add: get_rids_def add_rid_def split: option.splits)

lemma get_add_mono: "r \<in> get_rids m q \<Longrightarrow> r \<in> get_rids (add_rid m p r) q"
  by (auto simp: get_rids_def add_rid_def split: option.splits)

lemma learn_middle_fst:
  "fst (learn_middle v r j k (m, subs)) = add_rid m (slice v k (k + j)) r"
  by (simp add: learn_middle_def Let_def)

lemma middle_mono:
  "r \<in> get_rids m q \<Longrightarrow> r \<in> get_rids (fst (fold (learn_middle v r j) ks (m, subs))) q"
proof (induction ks arbitrary: m subs)
  case Nil
  then show ?case by simp
next
  case (Cons k ks)
  obtain m' subs' where st: "learn_middle v r j k (m, subs) = (m', subs')"
    by (cases "learn_middle v r j k (m, subs)")
  have "m' = add_rid m (slice v k (k + j)) r"
    using learn_middle_fst[of v r j k m subs] st by simp
  then have "r \<in> get_rids m' q" using Cons.prems by (simp add: get_add_mono)
  then show ?case using Cons.IH[of m' subs'] st by simp
qed

lemma middle_hit:
  "k \<in> set ks \<Longrightarrow>
   r \<in> get_rids (fst (fold (learn_middle v r j) ks (m, subs))) (slice v k (k + j))"
proof (induction ks arbitrary: m subs)
  case Nil
  then show ?case by simp
next
  case (Cons a ks)
  obtain m' subs' where st: "learn_middle v r j a (m, subs) = (m', subs')"
    by (cases "learn_middle v r j a (m, subs)")
  have m': "m' = add_rid m (slice v a (a + j)) r"
    using learn_middle_fst[of v r j a m subs] st by simp
  show ?case
  proof (cases "k = a")
    case True
    then have "r \<in> get_rids m' (slice v k (k + j))" by (simp add: m' get_add_same)
    then show ?thesis using middle_mono[of r m' _ v j ks subs'] st by simp
  next
    case False
    then have "k \<in> set ks" using Cons.prems by simp
    then show ?thesis using Cons.IH[of m' subs'] st by simp
  qed
qed

lemma step_case_sensitive: "case_sensitive (fst (learn_step v r i (s, subs))) = case_sensitive s"
  by (simp add: learn_step_def Let_def)
lemma step_values: "str_values (fst (learn_step v r i (s, subs))) = str_values s"
  by (simp add: learn_step_def Let_def)
lemma step_rids: "str_rids (fst (learn_step v r i (s, subs))) = str_rids s"
  by (simp add: learn_step_def Let_def)
lemma step_beginnings:
  "beginnings (fst (learn_step v r i (s, subs))) = add_rid (beginnings s) (take (Suc i) v) r"
  by (simp add: learn_step_def Let_def)
lemma step_endings:
  "endings (fst (learn_step v r i (s, subs))) = add_rid (endings s) (drop i v) r"
  by (simp add: learn_step_def Let_def)
lemma step_middles:
  "middles (fst (learn_step v r i (s, subs))) =
     fst (fold (learn_middle v r (Suc i)) [0..<length v - i] (middles s, subs))"
  by (simp add: learn_step_def Let_def)

lemma fold_preserves:
  assumes "P x" and "\<And>a y. P y \<Longrightarrow> P (f a y)"
  shows "P (fold f as x)"
  using assms by (induction as arbitrary: x) auto

lemma fold_establishes:
  assumes "a \<in> set as" and "\<And>y. Q (f a y)" and "\<And>b y. Q y \<Longrightarrow> Q (f b y)"
  shows "Q (fold f as x)"
  using assms(1)
proof (induction as arbitrary: x)
  case Nil
  then show ?case by simp
next
  case (Cons b as)
  show ?case
  proof (cases "a = b")
    case True
    have "Q (f b x)" using assms(2) True by simp
    then have "Q (fold f as (f b x))" using assms(3) by (rule fold_preserves)
    then show ?thesis by simp
  next
    case False
    then have "a \<in> set as" using Cons.prems by simp
    then show ?thesis using Cons.IH by simp
  qed
qed

lemma step_mono_beginnings:
  "r \<in> get_rids (beginnings (fst y)) q \<Longrightarrow> r \<in> get_rids (beginnings (fst (learn_step v r i y))) q"
  by (cases y) (simp add: step_beginnings get_add_mono)

lemma step_mono_middles:
  "r \<in> get_rids (middles (fst y)) q \<Longrightarrow> r \<in> get_rids (middles (fst (learn_step v r i y))) q"
  by (cases y) (simp add: step_middles middle_mono)

lemma step_mono_endings:
  "r \<in> get_rids (endings (fst y)) q \<Longrightarrow> r \<in> get_rids (endings (fst (learn_step v r i y))) q"
  by (cases y) (simp add: step_endings get_add_mono)

lemma loop_case_sensitive:
  "case_sensitive (fst (fold (learn_step v r) is (s, subs))) = case_sensitive s"
proof (rule fold_preserves[where
      P = "\<lambda>y :: 'a string_index_scheme \<times> entry list. case_sensitive (fst y) = case_sensitive s"])
  show "case_sensitive (fst (s, subs)) = case_sensitive s" by simp
next
  fix a and y :: "'a string_index_scheme \<times> entry list"
  assume "case_sensitive (fst y) = case_sensitive s"
  then show "case_sensitive (fst (learn_step v r a y)) = case_sensitive s"
    by (cases y) (simp add: step_case_sensitive)
qed

lemma loop_values:
  "str_values (fst (fold (learn_step v r) is (s, subs))) = str_values s"
proof (rule fold_preserves[where
      P = "\<lambda>y :: 'a string_index_scheme \<times> entry list. str_values (fst y) = str_values s"])
  show "str_values (fst (s, subs)) = str_values s" by simp
next
  fix a and y :: "'a string_index_scheme \<times> entry list"
  assume "str_values (fst y) = str_values s"
  then show "str_values (fst (learn_step v r a y)) = str_values s"
    by (cases y) (simp add: step_values)
qed

lemma loop_hit_beginnings:
  assumes "i < length v"
  shows "r \<in> get_rids (beginnings (fst (fold (learn_step v r) [0..<length v] y))) (take (Suc i) v)"
proof (rule fold_establishes[where a = i and
      Q = "\<lambda>y. r \<in> get_rids (beginnings (fst y)) (take (Suc i) v)"])
  show "i \<in> set [0..<length v]" using assms by simp
next
  fix y :: "'a string_index_scheme \<times> entry list"
  show "r \<in> get_rids (beginnings (fst (learn_step v r i y))) (take (Suc i) v)"
    by (cases y) (simp add: step_beginnings get_add_same)
next
  fix b and y :: "'a string_index_scheme \<times> entry list"
  assume "r \<in> get_rids (beginnings (fst y)) (take (Suc i) v)"
  then show "r \<in> get_rids (beginnings (fst (learn_step v r b y))) (take (Suc i) v)"
    by (rule step_mono_beginnings)
qed

lemma loop_hit_endings:
  assumes "i < length v"
  shows "r \<in> get_rids (endings (fst (fold (learn_step v r) [0..<length v] y))) (drop i v)"
proof (rule fold_establishes[where a = i and
      Q = "\<lambda>y. r \<in> get_rids (endings (fst y)) (drop i v)"])
  show "i \<in> set [0..<length v]" using assms by simp
next
  fix y :: "'a string_index_scheme \<times> entry list"
  show "r \<in> get_rids (endings (fst (learn_step v r i y))) (drop i v)"
    by (cases y) (simp add: step_endings get_add_same)
next
  fix b and y :: "'a string_index_scheme \<times> entry list"
  assume "r \<in> get_rids (endings (fst y)) (drop i v)"
  then show "r \<in> get_rids (endings (fst (learn_step v r b y))) (drop i v)"
    by (rule step_mono_endings)
qed

lemma loop_hit_middles:
  assumes "i < length v" and "k < length v - i"
  shows "r \<in> get_rids (middles (fst (fold (learn_step v r) [0..<length v] y)))
           (slice v k (k + Suc i))"
proof (rule fold_establishes[where a = i and
      Q = "\<lambda>y. r \<in> get_rids (middles (fst y)) (slice v k (k + Suc i))"])
  show "i \<in> set [0..<length v]" using assms by simp
next
  fix y :: "'a string_index_scheme \<times> entry list"
  have "k \<in> set [0..<length v - i]" using assms(2) by simp
  then have "r \<in> get_rids (fst (fold (learn_middle v r (Suc i)) [0..<length v - i]
      (middles (fst y), snd y))) (slice v k (k + Suc i))"
    by (rule middle_hit)
  then show "r \<in> get_rids (middles (fst (learn_step v r i y))) (slice v k (k + Suc i))"
    by (cases y) (simp only: step_middles fst_conv snd_conv)
next
  fix b and y :: "'a string_index_scheme \<times> entry list"
  assume "r \<in> get_rids (middles (fst y)) (slice v k (k + Suc i))"
  then show "r \<in> get_rids (middles (fst (learn_step v r b y))) (slice v k (k + Suc i))"
    by (rule step_mono_middles)
qed

text \<open>What a successful \<open>String.learn\<close> leaves in the four maps.\<close>

lemma String_learn_Inr:
  assumes "String_learn s r (PStr v0) = Inr s'"
    and "v = (if case_sensitive s then v0 else lower v0)"
  shows "case_sensitive s' = case_sensitive s"
    and "r \<in> get_rids (str_values s') v"
    and "i < length v \<Longrightarrow> r \<in> get_rids (beginnings s') (take (Suc i) v)"
    and "i < length v \<Longrightarrow> r \<in> get_rids (endings s') (drop i v)"
    and "i < length v \<Longrightarrow> k < length v - i \<Longrightarrow>
           r \<in> get_rids (middles s') (slice v k (k + Suc i))"
proof -
  define s1 where "s1 = s\<lparr>str_values := add_rid (str_values s) v r\<rparr>"
  define res where "res = fold (learn_step v r) [0..<length v] (s1, [])"
  have s': "s' = (fst res)\<lparr>str_rids := (str_rids (fst res))(r \<mapsto> snd res)\<rparr>"
    using assms by (simp add: String_learn_def Let_def res_def s1_def)
  show "case_sensitive s' = case_sensitive s"
    by (simp add: s' res_def loop_case_sensitive s1_def)
  show "r \<in> get_rids (str_values s') v"
    by (simp add: s' res_def loop_values s1_def get_add_same)
  show "i < length v \<Longrightarrow> r \<in> get_rids (beginnings s') (take (Suc i) v)"
    using loop_hit_beginnings[of i v r "(s1, [])"] by (simp add: s' res_def)
  show "i < length v \<Longrightarrow> r \<in> get_rids (endings s') (drop i v)"
    using loop_hit_endings[of i v r "(s1, [])"] by (simp add: s' res_def)
  show "i < length v \<Longrightarrow> k < length v - i \<Longrightarrow>
           r \<in> get_rids (middles s') (slice v k (k + Suc i))"
    using loop_hit_middles[of i v k r "(s1, [])"] by (simp add: s' res_def)
qed

lemma holds_substring:
  "holds (String_substring s index (PStr a)) r \<longleftrightarrow>
     r \<in> get_rids index (if case_sensitive s then a else lower a)"
  by (simp add: holds_def String_substring_def)

lemma prefix_as_take:
  assumes "p \<noteq> []" and "prefix p v"
  shows "\<exists>i < length v. p = take (Suc i) v"
proof -
  obtain z where v: "v = p @ z" using assms(2) by (auto simp: prefix_def)
  have "length p - 1 < length v" using assms(1) v by (cases p) auto
  moreover have "p = take (Suc (length p - 1)) v" using assms(1) v by (cases p) auto
  ultimately show ?thesis by blast
qed

lemma suffix_as_drop:
  assumes "e \<noteq> []" and "suffix e v"
  shows "\<exists>i < length v. e = drop i v"
proof -
  obtain z where v: "v = z @ e" using assms(2) by (auto simp: suffix_def)
  have "length z < length v" using assms(1) v by (cases e) auto
  moreover have "e = drop (length z) v" using v by simp
  ultimately show ?thesis by blast
qed

lemma sublist_as_slice:
  assumes "m \<noteq> []" and "sublist m v"
  shows "\<exists>i < length v. \<exists>k < length v - i. m = slice v k (k + Suc i)"
proof -
  obtain a b where v: "v = a @ m @ b" using assms(2) by (auto simp: sublist_def)
  obtain x m' where m: "m = x # m'" using assms(1) by (cases m) auto
  have 1: "length m' < length v" using v m by simp
  have 2: "length a < length v - length m'" using v m by simp
  have 3: "m = slice v (length a) (length a + Suc (length m'))"
    using v m by (simp add: slice_def)
  show ?thesis using 1 2 3 by blast
qed

lemma lower_Nil_iff: "lower p = [] \<longleftrightarrow> p = []"
  by (simp add: lower_def)

lemma lower_prefix: "prefix p v \<Longrightarrow> prefix (lower p) (lower v)"
  by (auto simp: prefix_def lower_def)

lemma lower_suffix: "suffix e v \<Longrightarrow> suffix (lower e) (lower v)"
  by (auto simp: suffix_def lower_def)

lemma lower_sublist: "sublist m v \<Longrightarrow> sublist (lower m) (lower v)"
proof -
  assume "sublist m v"
  then obtain a b where "v = a @ m @ b" by (auto simp: sublist_def)
  then have "lower v = lower a @ lower m @ lower b" by (simp add: lower_def)
  then show ?thesis unfolding sublist_def by blast
qed

lemma holds_key:
  "holds (String_substring s index (PStr a)) r \<longleftrightarrow> r \<in> get_rids index (String_key s a)"
  by (simp add: holds_substring String_key_def)

lemma String_learn_case_sensitive:
  "String_learn s r val = Inr s' \<Longrightarrow> case_sensitive s' = case_sensitive s"
  by (cases val) (auto simp: String_learn_def Let_def loop_case_sensitive)

lemma String_key_Nil_iff: "String_key s a = [] \<longleftrightarrow> a = []"
  by (simp add: String_key_def lower_Nil_iff)

text \<open>
  What \<open>learn\<close> files can be found under the exact value and its exact parts, by an
  index of either kind.
\<close>

lemma String_learn_found:
  assumes "String_learn s r (PStr v) = Inr s'"
  shows "holds (String_is s' (PStr v)) r"
    and "p \<noteq> [] \<Longrightarrow> prefix p v \<Longrightarrow> holds (String_startswith s' (PStr p)) r"
    and "e \<noteq> [] \<Longrightarrow> suffix e v \<Longrightarrow> holds (String_endswith s' (PStr e)) r"
    and "m \<noteq> [] \<Longrightarrow> sublist m v \<Longrightarrow> holds (String_contains s' (PStr m)) r"
proof -
  define n where "n = (\<lambda>a. if case_sensitive s then a else lower a)"
  have nv: "n v = (if case_sensitive s then v else lower v)" by (simp add: n_def)
  note L = String_learn_Inr[OF assms nv]
  have cs: "case_sensitive s' = case_sensitive s" by (rule L(1))
  have look: "holds (String_substring s' index (PStr a)) r \<longleftrightarrow> r \<in> get_rids index (n a)"
    for index a by (simp add: holds_substring cs n_def)
  have n_nil: "a \<noteq> [] \<Longrightarrow> n a \<noteq> []" for a by (simp add: n_def lower_Nil_iff)
  show "holds (String_is s' (PStr v)) r"
    unfolding String_is_def look by (rule L(2))
  show "holds (String_startswith s' (PStr p)) r" if ne: "p \<noteq> []" and rel: "prefix p v"
  proof -
    have "prefix (n p) (n v)" using rel by (simp add: n_def lower_prefix)
    then obtain i where "i < length (n v)" "n p = take (Suc i) (n v)"
      using prefix_as_take[OF n_nil[OF ne]] by blast
    then show ?thesis unfolding String_startswith_def look using L(3)[of i] by simp
  qed
  show "holds (String_endswith s' (PStr e)) r" if ne: "e \<noteq> []" and rel: "suffix e v"
  proof -
    have "suffix (n e) (n v)" using rel by (simp add: n_def lower_suffix)
    then obtain i where "i < length (n v)" "n e = drop i (n v)"
      using suffix_as_drop[OF n_nil[OF ne]] by blast
    then show ?thesis unfolding String_endswith_def look using L(4)[of i] by simp
  qed
  show "holds (String_contains s' (PStr m)) r" if ne: "m \<noteq> []" and rel: "sublist m v"
  proof -
    have "sublist (n m) (n v)" using rel by (simp add: n_def lower_sublist)
    then obtain i k where "i < length (n v)" "k < length (n v) - i"
      "n m = slice (n v) k (k + Suc i)"
      using sublist_as_slice[OF n_nil[OF ne]] by blast
    then show ?thesis unfolding String_contains_def look using L(5)[of i k] by simp
  qed
qed

text \<open>
  \<open>lower\<close> takes two strings to the same string exactly when they are the same but for
  the case of ASCII letters.
\<close>

lemma lower_char_letters:
  "lower_char c = (case map_of letters c of Some d \<Rightarrow> d | None \<Rightarrow> c)"
  by (simp only: lower_char_def letters_def)

lemma letters_distinct: "distinct (map fst letters)" "distinct (map snd letters)"
  by (simp_all add: letters_def)

lemma letters_apart: "set (map fst letters) \<inter> set (map snd letters) = {}"
  by (simp add: letters_def)

lemma lower_char_capital:
  assumes "(x, y) \<in> set letters"
  shows "lower_char x = y" and "lower_char y = y"
proof -
  have "map_of letters x = Some y" using letters_distinct(1) assms by (rule map_of_is_SomeI)
  then show "lower_char x = y" by (simp add: lower_char_letters)
  have "y \<in> set (map snd letters)" using assms by force
  then have "y \<notin> set (map fst letters)" using letters_apart by blast
  then have "map_of letters y = None" by (simp add: map_of_eq_None_iff)
  then show "lower_char y = y" by (simp add: lower_char_letters)
qed

lemma same_letter_lower:
  assumes "same_letter x y"
  shows "lower_char x = lower_char y"
proof -
  consider "x = y" | "(x, y) \<in> set letters" | "(y, x) \<in> set letters"
    using assms unfolding same_letter_def by blast
  then show ?thesis
  proof cases
    case 1
    then show ?thesis by (simp only:)
  next
    case 2
    have "lower_char x = y" using 2 by (rule lower_char_capital(1))
    moreover have "lower_char y = y" using 2 by (rule lower_char_capital(2))
    ultimately show ?thesis by (simp only:)
  next
    case 3
    have "lower_char y = x" using 3 by (rule lower_char_capital(1))
    moreover have "lower_char x = x" using 3 by (rule lower_char_capital(2))
    ultimately show ?thesis by (simp only:)
  qed
qed

lemma lower_char_cases: "lower_char x = x \<or> (x, lower_char x) \<in> set letters"
proof (cases "map_of letters x")
  case None
  then show ?thesis by (simp add: lower_char_letters)
next
  case (Some d)
  then have "(x, d) \<in> set letters" by (rule map_of_SomeD)
  moreover have "lower_char x = d" using Some by (simp add: lower_char_letters)
  ultimately show ?thesis by simp
qed

lemma capital_of_one:
  assumes "(x, d) \<in> set letters" and "(y, d) \<in> set letters"
  shows "x = y"
proof -
  have inj: "inj_on snd (set letters)" using letters_distinct(2) by (simp add: distinct_map)
  have "snd (x, d) = snd (y, d)" by simp
  with inj have "(x, d) = (y, d)" using assms by (rule inj_onD)
  then show ?thesis by simp
qed

lemma lower_same_letter:
  assumes "lower_char x = lower_char y"
  shows "same_letter x y"
proof -
  consider "lower_char x = x" "lower_char y = y"
    | "lower_char x = x" "(y, lower_char y) \<in> set letters"
    | "(x, lower_char x) \<in> set letters" "lower_char y = y"
    | "(x, lower_char x) \<in> set letters" "(y, lower_char y) \<in> set letters"
    using lower_char_cases[of x] lower_char_cases[of y] by blast
  then show ?thesis
  proof cases
    case 1
    have "x = lower_char x" using 1(1) by (rule sym)
    also have "\<dots> = lower_char y" by (rule assms)
    also have "\<dots> = y" by (rule 1(2))
    finally show ?thesis unfolding same_letter_def by (rule disjI1)
  next
    case 2
    have "lower_char y = x" using 2(1) assms by (simp only:)
    with 2(2) have "(y, x) \<in> set letters" by (simp only:)
    then show ?thesis unfolding same_letter_def by (intro disjI2)
  next
    case 3
    have "lower_char x = y" using 3(2) assms by (simp only:)
    with 3(1) have "(x, y) \<in> set letters" by (simp only:)
    then show ?thesis unfolding same_letter_def by (intro disjI2 disjI1)
  next
    case 4
    have "(y, lower_char x) \<in> set letters" using 4(2) assms by (simp only:)
    with 4(1) have "x = y" by (rule capital_of_one)
    then show ?thesis unfolding same_letter_def by (rule disjI1)
  qed
qed

lemma same_but_case_lower: "same_but_case a b \<longleftrightarrow> lower a = lower b"
proof
  assume "same_but_case a b"
  then have "list_all2 same_letter a b" by (simp add: same_but_case_def)
  then show "lower a = lower b"
    unfolding lower_def by (induction rule: list_all2_induct) (auto dest: same_letter_lower)
next
  assume "lower a = lower b"
  then have "map lower_char a = map lower_char b" by (simp add: lower_def)
  then have "list_all2 same_letter a b"
  proof (induction a arbitrary: b)
    case Nil
    then show ?case by simp
  next
    case (Cons x a)
    then obtain y b' where b: "b = y # b'" by (cases b) auto
    then show ?case using Cons by (auto intro: lower_same_letter)
  qed
  then show "same_but_case a b" by (simp add: same_but_case_def)
qed

lemma String_names_key: "String_names s a b \<longleftrightarrow> String_key s a = String_key s b"
  by (simp add: String_names_def String_key_def same_but_case_lower)

lemma String_names_refl: "String_names s a a"
  by (simp add: String_names_key)

text \<open>
  C6.  After \<open>learn(rid, v)\<close> of a string on a String index, \<open>is_(a)\<close> holds the rid for
  every argument \<open>a\<close> that names \<open>v\<close>, and so do \<open>startswith(a)\<close> for every \<open>a\<close> that
  names a non-empty prefix of \<open>v\<close>, \<open>endswith(a)\<close> for every \<open>a\<close> that names a non-empty
  suffix and \<open>contains(a)\<close> for every \<open>a\<close> that names a non-empty contiguous part.  To a
  case-sensitive index a string is named by itself only; to an index that is not, by
  every string that is the same but for the case of its ASCII letters, since the value
  and the search arguments are lowered first.
\<close>

theorem String_learn_then_search:
  assumes "String_learn s r (PStr v) = Inr s'"
  shows "(\<forall>a. String_names s a v \<longrightarrow> holds (String_is s' (PStr a)) r) \<and>
         (\<forall>a p. String_names s a p \<and> p \<noteq> [] \<and> prefix p v \<longrightarrow>
            holds (String_startswith s' (PStr a)) r) \<and>
         (\<forall>a e. String_names s a e \<and> e \<noteq> [] \<and> suffix e v \<longrightarrow>
            holds (String_endswith s' (PStr a)) r) \<and>
         (\<forall>a m. String_names s a m \<and> m \<noteq> [] \<and> sublist m v \<longrightarrow>
            holds (String_contains s' (PStr a)) r)"
proof -
  have cs: "case_sensitive s' = case_sensitive s"
    using assms by (rule String_learn_case_sensitive)
  have same: "holds (String_substring s' index (PStr a)) r \<longleftrightarrow>
              holds (String_substring s' index (PStr b)) r"
    if "String_names s a b" for index a b
    using that by (simp add: holds_key String_names_key String_key_def cs)
  note F = String_learn_found[OF assms]
  have A: "holds (String_is s' (PStr a)) r" if "String_names s a v" for a
    using F(1) same[OF that] by (simp add: String_is_def)
  have B: "holds (String_startswith s' (PStr a)) r"
    if "String_names s a p \<and> p \<noteq> [] \<and> prefix p v" for a p
    using F(2)[of p] same[of a p] that by (simp add: String_startswith_def)
  have C: "holds (String_endswith s' (PStr a)) r"
    if "String_names s a e \<and> e \<noteq> [] \<and> suffix e v" for a e
    using F(3)[of e] same[of a e] that by (simp add: String_endswith_def)
  have D: "holds (String_contains s' (PStr a)) r"
    if "String_names s a m \<and> m \<noteq> [] \<and> sublist m v" for a m
    using F(4)[of m] same[of a m] that by (simp add: String_contains_def)
  show ?thesis using A B C D by blast
qed


lemma String_learn_PStr: "\<exists>s'. String_learn s r (PStr v) = Inr s'"
  by (simp add: String_learn_def Let_def)

theorem String_learn_then_search_witness:
  "\<exists>s'. String_learn (String_new False) 7 (PStr ''Ab'') = Inr s' \<and>
        holds (String_is s' (PStr ''aB'')) 7 \<and>
        holds (String_startswith s' (PStr ''a'')) 7 \<and>
        holds (String_endswith s' (PStr ''B'')) 7 \<and>
        holds (String_contains s' (PStr ''AB'')) 7"
proof -
  obtain s' where h: "String_learn (String_new False) 7 (PStr ''Ab'') = Inr s'"
    using String_learn_PStr[of "String_new False" 7 "''Ab''"] by (elim exE)
  note T = String_learn_then_search[OF h]
  have ci: "\<not> case_sensitive (String_new False)" by (simp add: String_new_def)
  have v: "String_names (String_new False) ''aB'' ''Ab''"
    by (simp add: String_names_def ci same_but_case_def same_letter_def letters_def)
  have p: "String_names (String_new False) ''a'' ''A'' \<and> ''A'' \<noteq> [] \<and> prefix ''A'' ''Ab''"
    by (simp add: String_names_def ci same_but_case_def same_letter_def letters_def)
  have e: "String_names (String_new False) ''B'' ''b'' \<and> ''b'' \<noteq> [] \<and> suffix ''b'' ''Ab''"
    by (simp add: String_names_def ci same_but_case_def same_letter_def letters_def suffix_Cons)
  have m: "String_names (String_new False) ''AB'' ''Ab'' \<and> ''Ab'' \<noteq> [] \<and> sublist ''Ab'' ''Ab''"
    by (simp add: String_names_def ci same_but_case_def same_letter_def letters_def)
  have 1: "holds (String_is s' (PStr ''aB'')) 7"
    using T[THEN conjunct1, rule_format, OF v] .
  have 2: "holds (String_startswith s' (PStr ''a'')) 7"
    using T[THEN conjunct2, THEN conjunct1, rule_format, OF p] .
  have 3: "holds (String_endswith s' (PStr ''B'')) 7"
    using T[THEN conjunct2, THEN conjunct2, THEN conjunct1, rule_format, OF e] .
  have 4: "holds (String_contains s' (PStr ''AB'')) 7"
    using T[THEN conjunct2, THEN conjunct2, THEN conjunct2, rule_format, OF m] .
  show ?thesis by (rule exI[of _ s']) (simp only: h 1 2 3 4 simp_thms)
qed

lemma set_oo_insert: "set (oo_insert e xs) = insert e (set xs)"
  by (induction xs) auto

lemma learn_middle_snd:
  "snd (learn_middle v r j k (m, subs)) = oo_insert (Sub (slice v k (k + j))) subs"
  by (simp add: learn_middle_def Let_def)

lemma middle_subs:
  "set (snd (fold (learn_middle v r j) ks (m, subs))) =
     set subs \<union> (\<lambda>k. Sub (slice v k (k + j))) ` set ks"
proof (induction ks arbitrary: m subs)
  case Nil
  show ?case by simp
next
  case (Cons k ks)
  obtain m' subs' where st: "learn_middle v r j k (m, subs) = (m', subs')"
    by (cases "learn_middle v r j k (m, subs)")
  have "subs' = oo_insert (Sub (slice v k (k + j))) subs"
    using learn_middle_snd[of v r j k m subs] st by simp
  then have "set subs' = insert (Sub (slice v k (k + j))) (set subs)"
    by (simp add: set_oo_insert)
  then show ?case using Cons.IH[of m' subs'] st by auto
qed

lemma step_subs:
  "set (snd (learn_step v r i y)) =
     set (snd y) \<union> (\<lambda>k. Sub (slice v k (k + Suc i))) ` {0..<length v - i}"
proof -
  obtain s subs where y: "y = (s, subs)" by (cases y)
  have "snd (learn_step v r i (s, subs)) =
      snd (fold (learn_middle v r (Suc i)) [0..<length v - i] (middles s, subs))"
    by (simp add: learn_step_def Let_def)
  then show ?thesis using middle_subs[of v r "Suc i" "[0..<length v - i]" "middles s" subs] y
    by simp
qed

lemma loop_subs:
  "set (snd (fold (learn_step v r) is y)) =
     set (snd y) \<union> (\<Union>i\<in>set is. (\<lambda>k. Sub (slice v k (k + Suc i))) ` {0..<length v - i})"
proof (induction "is" arbitrary: y)
  case Nil
  show ?case by simp
next
  case (Cons i "is")
  show ?case using Cons.IH[of "learn_step v r i y"] step_subs[of v r i y] by auto
qed

lemma slice_sublist:
  assumes "i < length v" and "k < length v - i"
  shows "slice v k (k + Suc i) \<noteq> [] \<and> sublist (slice v k (k + Suc i)) v"
proof -
  have s: "slice v k (k + Suc i) = take (Suc i) (drop k v)" by (simp add: slice_def)
  have "drop k v \<noteq> []" using assms by simp
  then have ne: "take (Suc i) (drop k v) \<noteq> []" by (cases "drop k v") auto
  have "sublist (take (Suc i) (drop k v)) (drop k v)" by (rule sublist_take)
  moreover have "sublist (drop k v) v" by (rule sublist_drop)
  ultimately have "sublist (take (Suc i) (drop k v)) v" by (rule sublist_order.order_trans)
  then show ?thesis using ne s by simp
qed

lemma all_slices:
  "(\<Union>i\<in>{0..<length v}. (\<lambda>k. Sub (slice v k (k + Suc i))) ` {0..<length v - i}) = substrings_of v"
proof (intro equalityI subsetI)
  fix e
  assume "e \<in> (\<Union>i\<in>{0..<length v}. (\<lambda>k. Sub (slice v k (k + Suc i))) ` {0..<length v - i})"
  then obtain i k where "i < length v" "k < length v - i" "e = Sub (slice v k (k + Suc i))"
    by auto
  then show "e \<in> substrings_of v" using slice_sublist[of i v k] by (simp add: substrings_of_def)
next
  fix e
  assume "e \<in> substrings_of v"
  then obtain m where m: "e = Sub m" "m \<noteq> []" "sublist m v" by (auto simp: substrings_of_def)
  then obtain i k where "i < length v" "k < length v - i" "m = slice v k (k + Suc i)"
    using sublist_as_slice[of m v] by blast
  then have "i \<in> {0..<length v}" "k \<in> {0..<length v - i}" "e = Sub (slice v k (k + Suc i))"
    using m(1) by simp_all
  then show "e \<in> (\<Union>i\<in>{0..<length v}. (\<lambda>k. Sub (slice v k (k + Suc i))) ` {0..<length v - i})"
    by blast
qed

text \<open>\<open>String.learn\<close> binds \<open>rids[rid]\<close> to exactly the non-empty contiguous parts of the value.\<close>

lemma String_learn_rids:
  assumes "String_learn s r (PStr v0) = Inr s'"
    and "v = (if case_sensitive s then v0 else lower v0)"
  shows "\<exists>es. str_rids s' r = Some es \<and> set es = substrings_of v"
proof -
  define s1 where "s1 = s\<lparr>str_values := add_rid (str_values s) v r\<rparr>"
  define res where "res = fold (learn_step v r) [0..<length v] (s1, [])"
  have s': "s' = (fst res)\<lparr>str_rids := (str_rids (fst res))(r \<mapsto> snd res)\<rparr>"
    using assms by (simp add: String_learn_def Let_def res_def s1_def)
  have "set (snd res) = substrings_of v"
    unfolding res_def using loop_subs[of v r "[0..<length v]" "(s1, [])"] all_slices[of v]
    by simp
  then show ?thesis by (simp add: s')
qed

text \<open>A second \<open>learn\<close> never takes a rid out of a map.\<close>

lemma String_learn_mono:
  assumes "String_learn s r val = Inr s'"
  shows "r \<in> get_rids (str_values s) q \<Longrightarrow> r \<in> get_rids (str_values s') q"
    and "r \<in> get_rids (beginnings s) q \<Longrightarrow> r \<in> get_rids (beginnings s') q"
    and "r \<in> get_rids (middles s) q \<Longrightarrow> r \<in> get_rids (middles s') q"
    and "r \<in> get_rids (endings s) q \<Longrightarrow> r \<in> get_rids (endings s') q"
proof -
  obtain v0 where val: "val = PStr v0" using assms by (cases val) (auto simp: String_learn_def)
  define v where "v = (if case_sensitive s then v0 else lower v0)"
  define s1 where "s1 = s\<lparr>str_values := add_rid (str_values s) v r\<rparr>"
  define res where "res = fold (learn_step v r) [0..<length v] (s1, [])"
  have s': "s' = (fst res)\<lparr>str_rids := (str_rids (fst res))(r \<mapsto> snd res)\<rparr>"
    using assms by (simp add: val String_learn_def Let_def res_def s1_def v_def)
  show "r \<in> get_rids (str_values s) q \<Longrightarrow> r \<in> get_rids (str_values s') q"
    by (simp add: s' res_def loop_values s1_def get_add_mono)
  show "r \<in> get_rids (beginnings s) q \<Longrightarrow> r \<in> get_rids (beginnings s') q"
  proof -
    assume a: "r \<in> get_rids (beginnings s) q"
    have "r \<in> get_rids (beginnings (fst (fold (learn_step v r) [0..<length v] (s1, [])))) q"
      by (rule fold_preserves[where P = "\<lambda>y. r \<in> get_rids (beginnings (fst y)) q"])
         (use a in \<open>simp_all add: s1_def step_mono_beginnings\<close>)
    then show ?thesis by (simp add: s' res_def)
  qed
  show "r \<in> get_rids (middles s) q \<Longrightarrow> r \<in> get_rids (middles s') q"
  proof -
    assume a: "r \<in> get_rids (middles s) q"
    have "r \<in> get_rids (middles (fst (fold (learn_step v r) [0..<length v] (s1, [])))) q"
      by (rule fold_preserves[where P = "\<lambda>y. r \<in> get_rids (middles (fst y)) q"])
         (use a in \<open>simp_all add: s1_def step_mono_middles\<close>)
    then show ?thesis by (simp add: s' res_def)
  qed
  show "r \<in> get_rids (endings s) q \<Longrightarrow> r \<in> get_rids (endings s') q"
  proof -
    assume a: "r \<in> get_rids (endings s) q"
    have "r \<in> get_rids (endings (fst (fold (learn_step v r) [0..<length v] (s1, [])))) q"
      by (rule fold_preserves[where P = "\<lambda>y. r \<in> get_rids (endings (fst y)) q"])
         (use a in \<open>simp_all add: s1_def step_mono_endings\<close>)
    then show ?thesis by (simp add: s' res_def)
  qed
qed

text \<open>What \<open>String.forget\<close> can touch.\<close>

lemma String_forget_frame:
  "case_sensitive (state_of (String_forget s r)) = case_sensitive s"
  "beginnings (state_of (String_forget s r)) = beginnings s"
  "middles (state_of (String_forget s r)) = middles s"
  "endings (state_of (String_forget s r)) = endings s"
  by (auto simp: String_forget_def forget_body_def state_of_def
      split: option.splits list.splits entry.splits)

lemma String_forget_values:
  assumes "str_rids s r = Some es" and "Sub q \<notin> set es"
  shows "str_values (state_of (String_forget s r)) q = str_values s q"
  using assms
  by (auto simp: String_forget_def forget_body_def state_of_def
      split: option.splits list.splits entry.splits)

lemma String_forget_raises:
  assumes "str_rids s r = Some es" and "es \<noteq> []"
  shows "raised (String_forget s r) \<noteq> None"
  using assms
  by (auto simp: String_forget_def forget_body_def raised_def
      split: option.splits list.splits entry.splits)

lemma String_forget_deletes:
  "String_forget s r = Inr s' \<Longrightarrow> str_rids s' r = None"
  by (auto simp: String_forget_def forget_body_def split: option.splits list.splits)

lemma Path_forget_raises: "raised (Path_forget s r) \<noteq> None"
proof (cases "String_forget s r")
  case (Inl a)
  then show ?thesis by (cases a) (simp add: Path_forget_def raised_def)
next
  case (Inr s1)
  then have "str_rids s1 r = None" by (rule String_forget_deletes)
  then show ?thesis using Inr by (simp add: Path_forget_def raised_def)
qed

lemma Index_forget_Enumeration: "raised (Index_forget (EnumerationIndex s) r) = Some TypeError"
  by (simp add: raised_def)

text \<open>
  Called with the two arguments its signature wants, \<open>Enumeration.forget\<close> does undo a
  \<open>learn\<close> of a rid the index did not know.
\<close>

lemma Enumeration_learn_forget:
  assumes "Enumeration_learn s r v = Inr s1"
    and "enum_values s r = None" and "r \<notin> get_rids (enum_rids s) v"
    and "enum_rids s v \<noteq> Some {}"
  shows "Enumeration_forget s1 r x = Inr s"
proof -
  have s1: "s1 = s\<lparr>enum_rids := add_rid (enum_rids s) v r, enum_values := (enum_values s)(r \<mapsto> v)\<rparr>"
    using assms(1) by (auto simp: Enumeration_learn_def split: if_splits)
  show ?thesis
  proof (cases "enum_rids s v")
    case None
    then have "(enum_rids s)(v := None) = enum_rids s" by (simp add: fun_upd_idem)
    moreover have "(enum_values s)(r := None) = enum_values s"
      using assms(2) by (simp add: fun_upd_idem)
    ultimately show ?thesis
      using None by (simp add: s1 Enumeration_forget_def add_rid_def Let_def)
  next
    case (Some rs)
    then have r: "r \<notin> rs" "rs \<noteq> {}" using assms(3,4) by (simp_all add: get_rids_def)
    then have "insert r rs - {r} = rs" by auto
    moreover have "(enum_rids s)(v \<mapsto> rs) = enum_rids s" using Some by (simp add: fun_upd_idem)
    moreover have "(enum_values s)(r := None) = enum_values s"
      using assms(2) by (simp add: fun_upd_idem)
    ultimately show ?thesis
      using Some r by (simp add: s1 Enumeration_forget_def add_rid_def Let_def)
  qed
qed

section \<open>Learning and forgetting\<close>

text \<open>
  C2.  \<open>learn(rid, v)\<close> followed by \<open>forget(rid)\<close> should give back the index as it was.
  On a fresh index of each kind the \<open>forget\<close> raises instead, and the rid is still filed:
  \<open>String.forget\<close> stops at its read of the missing attribute \<open>substrings\<close>,
  \<open>Enumeration.forget\<close> cannot be called with one argument, and \<open>Path.forget\<close> stops
  inside \<open>String.forget\<close>.
\<close>

theorem learn_then_forget_raises:
  "raised (learn_then_forget (StringIndex (String_new False)) 1 (PStr ''a'')) = Some AttributeError \<and>
   (case state_of (learn_then_forget (StringIndex (String_new False)) 1 (PStr ''a'')) of
      StringIndex s \<Rightarrow>
        str_values s ''a'' = Some {} \<and> beginnings s ''a'' = Some {1} \<and>
        middles s ''a'' = Some {1} \<and> endings s ''a'' = Some {1} \<and>
        str_rids s 1 = Some [Sub ''a'']
    | _ \<Rightarrow> False) \<and>
   raised (learn_then_forget (EnumerationIndex (Enumeration_new [PStr ''x''] None)) 1 (PStr ''x''))
     = Some TypeError \<and>
   (case state_of
       (learn_then_forget (EnumerationIndex (Enumeration_new [PStr ''x''] None)) 1 (PStr ''x'')) of
      EnumerationIndex s \<Rightarrow> enum_values s 1 = Some (PStr ''x'') \<and> enum_rids s (PStr ''x'') = Some {1}
    | _ \<Rightarrow> False) \<and>
   raised (learn_then_forget (PathIndex (Path_new ''/r'' True)) 1 (PStr ''/r/a'')) = Some KeyError \<and>
   (case state_of (learn_then_forget (PathIndex (Path_new ''/r'' True)) 1 (PStr ''/r/a'')) of
      PathIndex s \<Rightarrow> path2rid s ''/r/a'' = Some 1 \<and> str_values s ''/r/a'' = Some {1}
    | _ \<Rightarrow> False)"
  by code_simp

text \<open>
  C7.  \<open>Enumeration.learn\<close> with a missing value (\<open>None\<close>) should store the configured
  default.  It raises \<open>NameError\<close> and stores nothing, with a default and without one;
  a value outside the permitted list is refused with \<open>ValueError\<close>.
\<close>

theorem Enumeration_learn_missing_value:
  "Enumeration_learn (Enumeration_new [PStr ''a'', PStr ''b''] (Some (PStr ''a''))) 1 PNone =
     Inl (NameError, Enumeration_new [PStr ''a'', PStr ''b''] (Some (PStr ''a''))) \<and>
   Enumeration_is (Enumeration_new [PStr ''a'', PStr ''b''] (Some (PStr ''a''))) (PStr ''a'') = {} \<and>
   Enumeration_learn (Enumeration_new [PStr ''a'', PStr ''b''] None) 1 PNone =
     Inl (NameError, Enumeration_new [PStr ''a'', PStr ''b''] None) \<and>
   Enumeration_learn (Enumeration_new [PStr ''a'', PStr ''b''] None) 1 (PStr ''c'') =
     Inl (ValueError, Enumeration_new [PStr ''a'', PStr ''b''] None)"
  by (simp add: Enumeration_learn_def Enumeration_new_def Enumeration_is_def get_rids_def)

text \<open>
  C9, as the claim has it: after a second \<open>learn\<close> of the same rid, \<open>forget\<close> cannot remove
  what the first value filed.  It can: with \<open>a\<close> then \<open>ab\<close>, \<open>forget\<close> takes the rid
  out of \<open>values[a]\<close> before it raises, so \<open>is_(a)\<close> no longer holds the rid.
\<close>

theorem String_relearn_forget_counterexample:
  "''a'' \<noteq> ''ab'' \<and>
   holds (String_is
     (state_of (String_learn (state_of (String_learn (String_new True) 1 (PStr ''a''))) 1
        (PStr ''ab'')))
     (PStr ''a'')) 1 \<and>
   \<not> holds (String_is
     (state_of (String_forget
        (state_of (String_learn (state_of (String_learn (String_new True) 1 (PStr ''a''))) 1
           (PStr ''ab''))) 1))
     (PStr ''a'')) 1"
  by code_simp

text \<open>
  C9, amended.  After \<open>learn(rid, v1)\<close> and \<open>learn(rid, v2)\<close> on a String index,
  \<open>is_(v1)\<close> still holds the rid and \<open>rids[rid]\<close> holds exactly the non-empty contiguous
  parts of \<open>v2\<close>.  A \<open>forget(rid)\<close> goes by \<open>rids[rid]\<close>: it changes no entry of
  \<open>values\<close>, \<open>beginnings\<close>, \<open>middles\<close> or \<open>endings\<close> whose key is not a non-empty
  contiguous part of \<open>v2\<close>.  So when \<open>v1\<close> is not a contiguous part of \<open>v2\<close> (both as
  the index files them), the rid is still found by \<open>is_(v1)\<close> after the \<open>forget\<close>, and by
  \<open>startswith(v1)\<close>, \<open>contains(v1)\<close> and \<open>endswith(v1)\<close> when \<open>v1\<close> is not empty.  This
  is what the catalog does to a path whose modification time has changed: \<open>_add_update\<close>
  learns the new value under the rid the path has, with no \<open>forget\<close> before it.
\<close>

theorem String_relearn_keeps_first_value:
  assumes "String_learn s r (PStr v1) = Inr s1" and "String_learn s1 r (PStr v2) = Inr s2"
  shows "holds (String_is s2 (PStr v1)) r \<and>
         (\<exists>es. str_rids s2 r = Some es \<and> set es = substrings_of (String_key s v2)) \<and>
         (\<forall>q. q = [] \<or> \<not> sublist q (String_key s v2) \<longrightarrow>
            str_values (state_of (String_forget s2 r)) q = str_values s2 q \<and>
            beginnings (state_of (String_forget s2 r)) q = beginnings s2 q \<and>
            middles (state_of (String_forget s2 r)) q = middles s2 q \<and>
            endings (state_of (String_forget s2 r)) q = endings s2 q) \<and>
         (v1 = [] \<or> \<not> sublist (String_key s v1) (String_key s v2) \<longrightarrow>
            holds (String_is (state_of (String_forget s2 r)) (PStr v1)) r) \<and>
         (v1 \<noteq> [] \<and> \<not> sublist (String_key s v1) (String_key s v2) \<longrightarrow>
            holds (String_startswith (state_of (String_forget s2 r)) (PStr v1)) r \<and>
            holds (String_contains (state_of (String_forget s2 r)) (PStr v1)) r \<and>
            holds (String_endswith (state_of (String_forget s2 r)) (PStr v1)) r) \<and>
         (indices c = [(n, StringIndex s1)] \<and> map_of (ridtimes c) path = Some (r, oldtime) \<and>
          fs path = Some mt \<and> mt \<noteq> oldtime \<and> Resource path n = Some (PStr v2) \<and> int32 r \<longrightarrow>
            (\<exists>c'. Catalog_add_update Resource fs c rand path = Some (Inr c', rand) \<and>
                  indices c' = [(n, StringIndex s2)]))"
proof -
  define k1 where "k1 = String_key s v1"
  define s3 where "s3 = state_of (String_forget s2 r)"
  have cs1: "case_sensitive s1 = case_sensitive s"
    using assms(1) by (rule String_learn_case_sensitive)
  have cs2: "case_sensitive s2 = case_sensitive s"
    using assms(2) cs1 by (simp add: String_learn_case_sensitive)
  have cs3: "case_sensitive s3 = case_sensitive s"
    by (simp add: s3_def String_forget_frame cs2)
  have key: "String_key s1 a = String_key s a" "String_key s2 a = String_key s a"
    "String_key s3 a = String_key s a" for a
    by (simp_all add: String_key_def cs1 cs2 cs3)
  have k1: "k1 = (if case_sensitive s then v1 else lower v1)" by (simp add: k1_def String_key_def)
  note L1 = String_learn_Inr[OF assms(1) k1]
  have v_in: "r \<in> get_rids (str_values s2) k1"
    using String_learn_mono(1)[OF assms(2)] L1(2) by blast
  have A: "holds (String_is s2 (PStr v1)) r"
    by (simp add: String_is_def holds_key key v_in k1_def[symmetric])
  have "String_key s v2 = (if case_sensitive s1 then v2 else lower v2)"
    by (simp add: String_key_def cs1)
  from String_learn_rids[OF assms(2) this]
  obtain es where es: "str_rids s2 r = Some es" "set es = substrings_of (String_key s v2)"
    by blast
  have B: "\<exists>es. str_rids s2 r = Some es \<and> set es = substrings_of (String_key s v2)"
    using es by blast
  have F: "str_values s3 q = str_values s2 q \<and> beginnings s3 q = beginnings s2 q \<and>
           middles s3 q = middles s2 q \<and> endings s3 q = endings s2 q"
    if "q = [] \<or> \<not> sublist q (String_key s v2)" for q
  proof -
    have "Sub q \<notin> set es" using that by (auto simp: es(2) substrings_of_def)
    then have "str_values s3 q = str_values s2 q"
      unfolding s3_def using es(1) by (rule String_forget_values[rotated])
    then show ?thesis by (simp add: s3_def String_forget_frame)
  qed
  have D: "holds (String_is s3 (PStr v1)) r"
    if "v1 = [] \<or> \<not> sublist (String_key s v1) (String_key s v2)"
  proof -
    have "k1 = [] \<or> \<not> sublist k1 (String_key s v2)"
      using that by (auto simp: k1_def String_key_Nil_iff)
    then have "str_values s3 k1 = str_values s2 k1" using F by blast
    then have "r \<in> get_rids (str_values s3) k1" using v_in by (simp add: get_rids_def)
    then show ?thesis by (simp add: String_is_def holds_key key k1_def[symmetric])
  qed
  have C: "holds (String_startswith s3 (PStr v1)) r \<and> holds (String_contains s3 (PStr v1)) r \<and>
           holds (String_endswith s3 (PStr v1)) r"
    if pre: "v1 \<noteq> [] \<and> \<not> sublist (String_key s v1) (String_key s v2)"
  proof -
    have pos: "0 < length k1" using pre by (simp add: k1_def String_key_Nil_iff)
    then have len: "length k1 - 1 < length k1" by simp
    have whole: "take (Suc (length k1 - 1)) k1 = k1" "drop 0 k1 = k1"
      "slice k1 0 (0 + Suc (length k1 - 1)) = k1"
      using len by (simp_all add: slice_def)
    have b1: "r \<in> get_rids (beginnings s1) k1" using L1(3)[OF len] whole by simp
    from pos have "r \<in> get_rids (endings s1) (drop 0 k1)" by (rule L1(4))
    then have e1: "r \<in> get_rids (endings s1) k1" by simp
    have "0 < length k1 - (length k1 - 1)" using pos by simp
    with len have "r \<in> get_rids (middles s1) (slice k1 0 (0 + Suc (length k1 - 1)))"
      by (rule L1(5))
    then have m1: "r \<in> get_rids (middles s1) k1" using whole(3) by simp
    have b2: "r \<in> get_rids (beginnings s2) k1" using String_learn_mono(2)[OF assms(2)] b1 .
    have m2: "r \<in> get_rids (middles s2) k1" using String_learn_mono(3)[OF assms(2)] m1 .
    have e2: "r \<in> get_rids (endings s2) k1" using String_learn_mono(4)[OF assms(2)] e1 .
    have "\<not> sublist k1 (String_key s v2)" using pre by (simp add: k1_def)
    then have fr: "beginnings s3 k1 = beginnings s2 k1" "middles s3 k1 = middles s2 k1"
      "endings s3 k1 = endings s2 k1"
      using F[of k1] by simp_all
    show ?thesis
      using b2 m2 e2
      by (simp add: String_startswith_def String_contains_def String_endswith_def holds_key key
          k1_def[symmetric] get_rids_def fr)
  qed
  have E: "\<exists>c'. Catalog_add_update Resource fs c rand path = Some (Inr c', rand) \<and>
                indices c' = [(n, StringIndex s2)]"
    if "indices c = [(n, StringIndex s1)] \<and> map_of (ridtimes c) path = Some (r, oldtime) \<and>
        fs path = Some mt \<and> mt \<noteq> oldtime \<and> Resource path n = Some (PStr v2) \<and> int32 r"
    using that assms(2) by (simp add: Catalog_add_update_def index_resource_def Let_def)
  show ?thesis using A B F D C E unfolding s3_def by blast
qed


theorem String_relearn_keeps_first_value_witness:
  "\<exists>s1 s2 c'. String_learn (String_new True) 1 (PStr ''a'') = Inr s1 \<and>
     String_learn s1 1 (PStr ''b'') = Inr s2 \<and>
     holds (String_is s2 (PStr ''a'')) 1 \<and>
     str_values (state_of (String_forget s2 1)) ''a'' = str_values s2 ''a'' \<and>
     beginnings (state_of (String_forget s2 1)) ''a'' = beginnings s2 ''a'' \<and>
     middles (state_of (String_forget s2 1)) ''a'' = middles s2 ''a'' \<and>
     endings (state_of (String_forget s2 1)) ''a'' = endings s2 ''a'' \<and>
     holds (String_is (state_of (String_forget s2 1)) (PStr ''a'')) 1 \<and>
     holds (String_startswith (state_of (String_forget s2 1)) (PStr ''a'')) 1 \<and>
     holds (String_contains (state_of (String_forget s2 1)) (PStr ''a'')) 1 \<and>
     holds (String_endswith (state_of (String_forget s2 1)) (PStr ''a'')) 1 \<and>
     Catalog_add_update (\<lambda>p. [''name'' \<mapsto> PStr ''b'']) [''/r'' \<mapsto> 20]
       \<lparr>indices = [(''name'', StringIndex s1)], ridtimes = [(''/r'', 1, 10)],
        resources = [1 \<mapsto> [''name'' \<mapsto> PStr ''a'']], cat_rids = {1}, v_nextrid = None\<rparr>
       [] ''/r'' = Some (Inr c', []) \<and>
     indices c' = [(''name'', StringIndex s2)]"
proof -
  obtain s1 where h1: "String_learn (String_new True) 1 (PStr ''a'') = Inr s1"
    using String_learn_PStr[of "String_new True" 1 "''a''"] by (elim exE)
  obtain s2 where h2: "String_learn s1 1 (PStr ''b'') = Inr s2"
    using String_learn_PStr[of s1 1 "''b''"] by (elim exE)
  define c where "c = \<lparr>indices = [(''name'', StringIndex s1)], ridtimes = [(''/r'', 1, 10)],
        resources = [1 \<mapsto> [''name'' \<mapsto> PStr ''a'']], cat_rids = {1}, v_nextrid = None\<rparr>"
  define R :: "string \<Rightarrow> resource" where "R = (\<lambda>p. [''name'' \<mapsto> PStr ''b''])"
  define fs :: filesystem where "fs = [''/r'' \<mapsto> 20]"
  note T = String_relearn_keeps_first_value[OF h1 h2,
      of c "''name''" "''/r''" 10 fs 20 R "[]"]
  have nsub: "\<not> sublist ''a'' ''b''" by (simp add: sublist_Cons_right)
  have key: "String_key (String_new True) ''a'' = ''a''" "String_key (String_new True) ''b'' = ''b''"
    by (simp_all add: String_key_def String_new_def)
  have nq: "''a'' = [] \<or> \<not> sublist ''a'' (String_key (String_new True) ''b'')"
    using nsub by (simp add: key)
  have ns: "''a'' = [] \<or> \<not> sublist (String_key (String_new True) ''a'')
      (String_key (String_new True) ''b'')"
    using nsub by (simp add: key)
  have ne: "''a'' \<noteq> [] \<and> \<not> sublist (String_key (String_new True) ''a'')
      (String_key (String_new True) ''b'')"
    using nsub by (simp add: key)
  have pre: "indices c = [(''name'', StringIndex s1)] \<and>
      map_of (ridtimes c) ''/r'' = Some (1, 10) \<and> fs ''/r'' = Some 20 \<and> (20::int) \<noteq> 10 \<and>
      R ''/r'' ''name'' = Some (PStr ''b'') \<and> int32 1"
    by (simp add: c_def fs_def R_def int32_def)
  have 1: "holds (String_is s2 (PStr ''a'')) 1" using T by (rule conjunct1)
  have 2: "str_values (state_of (String_forget s2 1)) ''a'' = str_values s2 ''a'' \<and>
     beginnings (state_of (String_forget s2 1)) ''a'' = beginnings s2 ''a'' \<and>
     middles (state_of (String_forget s2 1)) ''a'' = middles s2 ''a'' \<and>
     endings (state_of (String_forget s2 1)) ''a'' = endings s2 ''a''"
    using T[THEN conjunct2, THEN conjunct2, THEN conjunct1, rule_format, OF nq] .
  have 3: "holds (String_is (state_of (String_forget s2 1)) (PStr ''a'')) 1"
    using T[THEN conjunct2, THEN conjunct2, THEN conjunct2, THEN conjunct1, rule_format, OF ns] .
  have 4: "holds (String_startswith (state_of (String_forget s2 1)) (PStr ''a'')) 1 \<and>
     holds (String_contains (state_of (String_forget s2 1)) (PStr ''a'')) 1 \<and>
     holds (String_endswith (state_of (String_forget s2 1)) (PStr ''a'')) 1"
    using T[THEN conjunct2, THEN conjunct2, THEN conjunct2, THEN conjunct2, THEN conjunct1,
        rule_format, OF ne] .
  obtain c' where 5: "Catalog_add_update R fs c [] ''/r'' = Some (Inr c', [])"
    "indices c' = [(''name'', StringIndex s2)]"
    using T[THEN conjunct2, THEN conjunct2, THEN conjunct2, THEN conjunct2, THEN conjunct2,
        rule_format, OF pre]
    by (elim exE conjE)
  show ?thesis
    by (rule exI[of _ s1], rule exI[of _ s2], rule exI[of _ c'])
       (simp only: h1 h2 1 2 3 4 5[unfolded R_def fs_def c_def] simp_thms)
qed

text \<open>
  C10.  \<open>Path.learn\<close> is not atomic.  For a non-empty value that does not start with
  the separator it raises \<open>ValueError\<close> in the state \<open>String.learn\<close> left, where the rid
  is already filed under the value in \<open>values\<close>, \<open>beginnings\<close>, \<open>middles\<close> and
  \<open>endings\<close>.  The empty string passes the check and is learned, under the path \<open>''\<close>.
\<close>

theorem Path_learn_not_atomic:
  "(v \<noteq> [] \<and> \<not> startswith_sep v \<longrightarrow>
      (\<exists>s1. String_learn s r (PStr v) = Inr s1 \<and>
            Path_learn s r (PStr v) = Inl (ValueError, s1) \<and>
            r \<in> get_rids (str_values s1) (String_key s v) \<and>
            r \<in> get_rids (beginnings s1) (String_key s v) \<and>
            r \<in> get_rids (middles s1) (String_key s v) \<and>
            r \<in> get_rids (endings s1) (String_key s v))) \<and>
   raised (Path_learn s r (PStr [])) = None \<and>
   path2rid (state_of (Path_learn s r (PStr []))) [] = Some r"
proof -
  have A: "\<exists>s1. String_learn s r (PStr v) = Inr s1 \<and>
            Path_learn s r (PStr v) = Inl (ValueError, s1) \<and>
            r \<in> get_rids (str_values s1) (String_key s v) \<and>
            r \<in> get_rids (beginnings s1) (String_key s v) \<and>
            r \<in> get_rids (middles s1) (String_key s v) \<and>
            r \<in> get_rids (endings s1) (String_key s v)"
    if ne: "v \<noteq> []" and rel: "\<not> startswith_sep v"
  proof -
    obtain s1 where h: "String_learn s r (PStr v) = Inr s1"
      using String_learn_PStr[of s r v] by (elim exE)
    define k where "k = String_key s v"
    have k: "k = (if case_sensitive s then v else lower v)" by (simp add: k_def String_key_def)
    note L = String_learn_Inr[OF h k]
    have pos: "0 < length k" using ne by (simp add: k_def String_key_Nil_iff)
    then have len: "length k - 1 < length k" by simp
    have whole: "take (Suc (length k - 1)) k = k" "slice k 0 (0 + Suc (length k - 1)) = k"
      using len by (simp_all add: slice_def)
    have b: "r \<in> get_rids (beginnings s1) k" using L(3)[OF len] whole by simp
    from pos have "r \<in> get_rids (endings s1) (drop 0 k)" by (rule L(4))
    then have e: "r \<in> get_rids (endings s1) k" by simp
    have "0 < length k - (length k - 1)" using pos by simp
    with len have "r \<in> get_rids (middles s1) (slice k 0 (0 + Suc (length k - 1)))"
      by (rule L(5))
    then have m: "r \<in> get_rids (middles s1) k" using whole(2) by simp
    have P: "Path_learn s r (PStr v) = Inl (ValueError, s1)"
      using ne rel by (simp add: Path_learn_def h)
    show ?thesis using h P L(2) b m e unfolding k_def by blast
  qed
  have B: "raised (Path_learn s r (PStr [])) = None"
    by (simp add: Path_learn_def String_learn_def Let_def raised_def)
  have C: "path2rid (state_of (Path_learn s r (PStr []))) [] = Some r"
    by (simp add: Path_learn_def String_learn_def Let_def state_of_def rstrip_sep_def
        lower_def split_sep_def learn_token_def)
  show ?thesis using A B C by blast
qed

theorem Path_learn_not_atomic_witness:
  "\<exists>s1. Path_learn (Path_new ''/r'' True) 1 (PStr ''r/a'') = Inl (ValueError, s1) \<and>
        1 \<in> get_rids (str_values s1) ''r/a'' \<and> 1 \<in> get_rids (beginnings s1) ''r/a'' \<and>
        1 \<in> get_rids (middles s1) ''r/a'' \<and> 1 \<in> get_rids (endings s1) ''r/a''"
proof -
  have pre: "''r/a'' \<noteq> [] \<and> \<not> startswith_sep ''r/a''"
    by (simp add: startswith_sep_def os_sep_def)
  have key: "String_key (Path_new ''/r'' True) ''r/a'' = ''r/a''"
    by (simp add: String_key_def Path_new_def)
  from Path_learn_not_atomic[of "''r/a''" "Path_new ''/r'' True" 1,
      THEN conjunct1, rule_format, OF pre]
  show ?thesis unfolding key by blast
qed

section \<open>The searches of the Path index\<close>

lemma levels_reached_empty: "b \<le> a \<Longrightarrow> levels_reached lv a b = {}"
  by (auto simp: levels_reached_def)

lemma levels_reached_None: "lv a = None \<Longrightarrow> levels_reached lv a b = {}"
  by (auto simp: levels_reached_def)

lemma levels_reached_Some:
  assumes "a < b" and "lv a = Some rs"
  shows "levels_reached lv a b = insert a (levels_reached lv (Suc a) b)"
proof -
  have adom: "a \<in> dom lv" using assms(2) by auto
  have iff: "{a..i} \<subseteq> dom lv \<longleftrightarrow> {Suc a..i} \<subseteq> dom lv" if "a \<le> i" for i
  proof -
    have "{a..i} = insert a {Suc a..i}" using that by auto
    then show ?thesis using adom by simp
  qed
  show ?thesis
  proof (intro equalityI subsetI)
    fix i assume "i \<in> levels_reached lv a b"
    then have i: "a \<le> i" "i < b" "{a..i} \<subseteq> dom lv" by (simp_all add: levels_reached_def)
    show "i \<in> insert a (levels_reached lv (Suc a) b)"
    proof (cases "i = a")
      case True
      then show ?thesis by simp
    next
      case False
      then have "Suc a \<le> i" using i(1) by simp
      moreover have "{Suc a..i} \<subseteq> dom lv" using iff[OF i(1)] i(3) by simp
      ultimately show ?thesis using i(2) by (simp add: levels_reached_def)
    qed
  next
    fix i assume "i \<in> insert a (levels_reached lv (Suc a) b)"
    then consider "i = a" | "Suc a \<le> i" "i < b" "{Suc a..i} \<subseteq> dom lv"
      by (auto simp: levels_reached_def)
    then show "i \<in> levels_reached lv a b"
    proof cases
      case 1
      then show ?thesis using assms(1) adom by (simp add: levels_reached_def)
    next
      case 2
      then have "a \<le> i" by simp
      then show ?thesis using 2 iff[of i] by (simp add: levels_reached_def)
    qed
  qed
qed

lemma subtract_levels_upt:
  "subtract_levels lv [a..<b] (Some R) =
     Some (R - (\<Union>i\<in>levels_reached lv a b. get_rids lv i))"
proof (induction "b - a" arbitrary: a R)
  case 0
  then show ?case by (simp add: levels_reached_empty)
next
  case (Suc n)
  then have lt: "a < b" by simp
  then have upt: "[a..<b] = a # [Suc a..<b]" by (simp add: upt_rec)
  show ?case
  proof (cases "lv a")
    case None
    then show ?thesis by (simp add: upt levels_reached_None)
  next
    case (Some rs)
    have "n = b - Suc a" using Suc.hyps(2) by simp
    then have "subtract_levels lv [Suc a..<b] (Some (R - rs)) =
        Some (R - rs - (\<Union>i\<in>levels_reached lv (Suc a) b. get_rids lv i))"
      by (rule Suc.hyps(1))
    then show ?thesis
      using Some by (auto simp: upt levels_reached_Some[of a b lv rs, OF lt Some] difference_def get_rids_def)
  qed
qed

lemma collect_levels_upt:
  "multiunion (collect_levels lv [a..<b]) = Inr (\<Union>i\<in>levels_reached lv a b. get_rids lv i)"
proof (induction "b - a" arbitrary: a)
  case 0
  then show ?case by (simp add: levels_reached_empty)
next
  case (Suc n)
  then have lt: "a < b" by simp
  then have upt: "[a..<b] = a # [Suc a..<b]" by (simp add: upt_rec)
  show ?case
  proof (cases "lv a")
    case None
    then show ?thesis by (simp add: upt levels_reached_None)
  next
    case (Some rs)
    have "n = b - Suc a" using Suc.hyps(2) by simp
    then have "multiunion (collect_levels lv [Suc a..<b]) =
        Inr (\<Union>i\<in>levels_reached lv (Suc a) b. get_rids lv i)"
      by (rule Suc.hyps(1))
    then show ?thesis
      using Some by (simp add: upt levels_reached_Some[of a b lv rs, OF lt Some] get_rids_def)
  qed
qed

lemma intersect_parts_Some:
  assumes "\<forall>l\<in>set ls. (l, ps ! l) \<in> dom pm"
  shows "intersect_parts pm ps ls (Some A) =
           Inr (Some (A \<inter> (\<Inter>l\<in>set ls. get_rids pm (l, ps ! l))))"
  using assms
proof (induction ls arbitrary: A)
  case Nil
  show ?case by simp
next
  case (Cons l ls)
  then obtain rs where rs: "pm (l, ps ! l) = Some rs" by auto
  have "intersect_parts pm ps ls (Some (A \<inter> rs)) =
      Inr (Some (A \<inter> rs \<inter> (\<Inter>l\<in>set ls. get_rids pm (l, ps ! l))))"
    using Cons.prems by (intro Cons.IH) simp
  then show ?case using rs by (simp add: intersection_def get_rids_def Int_assoc)
qed

lemma intersect_parts_None:
  assumes "\<forall>l\<in>set ls. (l, ps ! l) \<in> dom pm" and "ls \<noteq> []"
  shows "intersect_parts pm ps ls None = Inr (Some (\<Inter>l\<in>set ls. get_rids pm (l, ps ! l)))"
proof -
  obtain l ls' where ls: "ls = l # ls'" using assms(2) by (cases ls) auto
  then obtain rs where rs: "pm (l, ps ! l) = Some rs" using assms(1) by auto
  have "intersect_parts pm ps ls' (Some rs) =
      Inr (Some (rs \<inter> (\<Inter>l\<in>set ls'. get_rids pm (l, ps ! l))))"
    using assms(1) ls by (intro intersect_parts_Some) simp
  then show ?thesis using rs ls by (simp add: intersection_def get_rids_def)
qed

lemma split_by_not_Nil: "split_by P s \<noteq> []"
  by (induction s) (auto split: list.splits)

lemma split_sep_length: "0 < length (split_sep path)"
  by (simp add: split_sep_def split_by_not_Nil)

text \<open>
  C5, as the claim has it: \<open>below\<close> of an unknown path is the empty rid-set, and an upper
  limit takes out the rids of every level in \<open>[level, level + upper)\<close>.  An unknown path
  gives \<open>None\<close>; and with \<open>/a\<close> at level 1 and \<open>/a/b/c\<close> at level 3 (nothing at level 2),
  \<open>below('/a 3:')\<close> stops at level 2 and keeps rid 2, although its level 3 is in the window
  \<open>[1, 4)\<close>.
\<close>

theorem Path_below_counterexample:
  "Path_below (Path_new ''/r'' True) (PStr ''/nope'') \<noteq> Inr (Some {}) \<and>
   Path_below
     (state_of (Path_learn (state_of (Path_learn (Path_new ''/r'' True) 1 (PStr ''/a''))) 2
        (PStr ''/a/b/c'')))
     (PStr ''/a 3:'') = Inr (Some {2}) \<and>
   get_rids (levels
     (state_of (Path_learn (state_of (Path_learn (Path_new ''/r'' True) 1 (PStr ''/a''))) 2
        (PStr ''/a/b/c'')))) 3 = {2}"
  by code_simp

text \<open>
  C5, amended.  With the argument parsed into a path and limits: \<open>below\<close> of a path that
  is not in \<open>path2rid\<close> returns \<open>None\<close>.  For an indexed path whose \<open>(level, segment)\<close>
  pairs are all keys of \<open>parts\<close>, it returns the intersection of \<open>parts[(l, segments[l])]\<close>
  over every level \<open>l\<close> of the path, less, when an upper limit is given, the rids of the
  levels of \<open>[level, level + upper)\<close> reached before the first level with no entry in
  \<open>levels\<close>, and cut down, when a lower limit is given, to the rids of the levels of
  \<open>[level, level + lower)\<close> reached in the same way.
\<close>

theorem Path_below_result:
  assumes "Path_path_and_limits s arg = Inr (path, up, lo)"
  shows "(path2rid s path = None \<longrightarrow> Path_below s arg = Inr None) \<and>
         (path2rid s path \<noteq> None \<and>
          (\<forall>l < length (split_sep path). (l, split_sep path ! l) \<in> dom (parts s)) \<longrightarrow>
            Path_below s arg =
              Inr (Some (level_window s (length (split_sep path) - 1) up lo
                (\<Inter>l<length (split_sep path). get_rids (parts s) (l, split_sep path ! l)))))"
proof -
  define ps where "ps = split_sep path"
  define level where "level = length ps - 1"
  define R where "R = (\<Inter>l<length ps. get_rids (parts s) (l, ps ! l))"
  have A: "Path_below s arg = Inr None" if "path2rid s path = None"
    using that assms by (simp add: Path_below_def)
  have B: "Path_below s arg = Inr (Some (level_window s level up lo R))"
    if known: "path2rid s path \<noteq> None"
      and keys: "\<forall>l < length ps. (l, ps ! l) \<in> dom (parts s)"
  proof -
    obtain r where r: "path2rid s path = Some r" using known by auto
    have ne: "[0..<length ps] \<noteq> []" using split_sep_length[of path] by (simp add: ps_def)
    have "\<forall>l\<in>set [0..<length ps]. (l, ps ! l) \<in> dom (parts s)" using keys by simp
    then have "intersect_parts (parts s) ps [0..<length ps] None =
        Inr (Some (\<Inter>l\<in>set [0..<length ps]. get_rids (parts s) (l, ps ! l)))"
      using ne by (rule intersect_parts_None)
    moreover have "set [0..<length ps] = {..<length ps}" by auto
    ultimately have ip: "intersect_parts (parts s) ps [0..<length ps] None = Inr (Some R)"
      by (simp add: R_def)
    have sub: "subtract_levels (levels s) [level..<u + level] (Some R) =
        Some (R - (\<Union>i\<in>levels_reached (levels s) level (level + u). get_rids (levels s) i))"
      for u using subtract_levels_upt[of "levels s" level "u + level" R] by (simp add: add.commute)
    have col: "multiunion (collect_levels (levels s) [level..<l + level]) =
        Inr (\<Union>i\<in>levels_reached (levels s) level (level + l). get_rids (levels s) i)"
      for l using collect_levels_upt[of "levels s" level "l + level"] by (simp add: add.commute)
    have lv: "length ps - Suc 0 = level" by (simp add: level_def)
    show ?thesis
      using assms r ip
      by (cases up; cases lo)
         (simp_all add: Path_below_def Let_def ps_def[symmetric] lv sub col
            level_window_def intersection_def)
  qed
  show ?thesis using A B unfolding ps_def level_def R_def by blast
qed

theorem Path_below_result_witness:
  "Path_below
     (state_of (Path_learn (state_of (Path_learn (Path_new ''/r'' True) 1 (PStr ''/a''))) 2
        (PStr ''/a/b/c'')))
     (PStr ''/a 3:'') =
   Inr (Some (level_window
     (state_of (Path_learn (state_of (Path_learn (Path_new ''/r'' True) 1 (PStr ''/a''))) 2
        (PStr ''/a/b/c'')))
     (length (split_sep ''/a'') - 1) (Some 3) None
     (\<Inter>l<length (split_sep ''/a'').
        get_rids (parts
          (state_of (Path_learn (state_of (Path_learn (Path_new ''/r'' True) 1 (PStr ''/a''))) 2
             (PStr ''/a/b/c''))))
          (l, split_sep ''/a'' ! l))))"
proof -
  define g where "g = state_of (Path_learn (state_of (Path_learn (Path_new ''/r'' True) 1
    (PStr ''/a''))) 2 (PStr ''/a/b/c''))"
  have h: "Path_path_and_limits g (PStr ''/a 3:'') = Inr (''/a'', Some 3, None)"
    unfolding g_def by code_simp
  have sp: "split_sep ''/a'' = ['''', ''a'']" by code_simp
  have k0: "(0, '''') \<in> dom (parts g)" unfolding g_def by code_simp
  have k1: "(1, ''a'') \<in> dom (parts g)" unfolding g_def by code_simp
  have known: "path2rid g ''/a'' \<noteq> None" unfolding g_def by code_simp
  have keys: "\<forall>l < length (split_sep ''/a''). (l, split_sep ''/a'' ! l) \<in> dom (parts g)"
    using k0 k1 by (simp add: sp less_Suc_eq numeral_2_eq_2)
  from Path_below_result[OF h, THEN conjunct2, rule_format, OF conjI[OF known keys]]
  show ?thesis unfolding g_def .
qed

text \<open>
  C4.  \<open>above(p)\<close> should return the union of \<open>below(a)\<close> over the ancestors \<open>a\<close> of \<open>p\<close>.
  With \<open>/\<close> learned as rid 1 and \<open>/r\<close> as rid 2, \<open>above('/r')\<close> computes the two \<open>below\<close>
  results and returns \<open>None\<close>.
\<close>

theorem Path_above_returns_None:
  "Path_above
     (state_of (Path_learn (state_of (Path_learn (Path_new ''/r'' True) 1 (PStr ''/''))) 2
        (PStr ''/r'')))
     (PStr ''/r'') = Inr None \<and>
   Path_below
     (state_of (Path_learn (state_of (Path_learn (Path_new ''/r'' True) 1 (PStr ''/''))) 2
        (PStr ''/r'')))
     (PStr ''/ 0:1'') = Inr (Some {}) \<and>
   Path_below
     (state_of (Path_learn (state_of (Path_learn (Path_new ''/r'' True) 1 (PStr ''/''))) 2
        (PStr ''/r'')))
     (PStr ''/r 0:1'') = Inr (Some {2})"
  by code_simp

text \<open>Whatever the index and the argument, \<open>above\<close> never returns a set.\<close>

lemma Path_above_no_set: "Path_above s arg \<noteq> Inr (Some R)"
  by (auto simp: Path_above_def Let_def split: sum.splits option.splits prod.splits)

section \<open>The Collection's normal form\<close>

text \<open>
  C3.  A Collection built as \<open>(A AND B) OR (C NOT D)\<close> from four constraints whose
  searches return the rid-sets \<open>A\<close>, \<open>B\<close>, \<open>C\<close>, \<open>D\<close> is refreshed to
  \<open>(A \<inter> B) \<union> (C - D)\<close>: each grouping folds its terms from the left, \<open>intersection\<close> for
  \<open>AND\<close> and \<open>difference\<close> for \<open>NOT\<close>, and the groupings are united.  When the second
  grouping is opened by \<open>OR\<close> without a constraint, its seed is the rid-set of the
  catalog: \<open>(A \<inter> B) \<union> (all - D)\<close>.
\<close>

theorem Collection_refresh_DNF:
  assumes "resolve a = Inr (qa, fa, xa)" and "fa xa = Inr (Some A)"
    and "resolve b = Inr (qb, fb, xb)" and "fb xb = Inr (Some B)"
    and "resolve c = Inr (qc, fc, xc)" and "fc xc = Inr (Some C)"
    and "resolve d = Inr (qd, fd, xd)" and "fd xd = Inr (Some D)"
    and "Collection_init resolve (Some a) = Inr k1"
    and "Collection_AND resolve k1 b = Inr k2"
  shows "(c \<noteq> [] \<and> Collection_OR resolve k2 c = Inr k3 \<and> Collection_NOT resolve k3 d = Inr k4 \<longrightarrow>
           (\<exists>k5. Collection_refresh all k4 = Inr k5 \<and> data k5 = Some ((A \<inter> B) \<union> (C - D)))) \<and>
         (Collection_OR resolve k2 [] = Inr u3 \<and> Collection_NOT resolve u3 d = Inr u4 \<longrightarrow>
           (\<exists>u5. Collection_refresh all u4 = Inr u5 \<and> data u5 = Some ((A \<inter> B) \<union> (all - D))))"
proof -
  have k1: "constraints k1 = Some [[(None, qa, Some fa, xa)]]"
    using assms(9) by (auto simp: Collection_init_def assms(1))
  have k2: "constraints k2 = Some [[(None, qa, Some fa, xa), (Some intersection, qb, Some fb, xb)]]"
    using assms(10) by (auto simp: Collection_AND_def assms(3) append_last_def k1)
  have g1: "refresh_grouping all [(None, qa, Some fa, xa), (Some intersection, qb, Some fb, xb)] res
      = Inr (Some (Some (A \<inter> B)))" for res
    by (simp add: assms(2,4) intersection_def)
  have P: "\<exists>k5. Collection_refresh all k4 = Inr k5 \<and> data k5 = Some ((A \<inter> B) \<union> (C - D))"
    if "c \<noteq> []" and o: "Collection_OR resolve k2 c = Inr k3"
      and n: "Collection_NOT resolve k3 d = Inr k4"
  proof -
    have k3: "constraints k3 =
        Some [[(None, qa, Some fa, xa), (Some intersection, qb, Some fb, xb)],
              [(None, qc, Some fc, xc)]]"
      using o that(1) by (auto simp: Collection_OR_def assms(5) append_grouping_def k2)
    have k4: "constraints k4 =
        Some [[(None, qa, Some fa, xa), (Some intersection, qb, Some fb, xb)],
              [(None, qc, Some fc, xc), (Some difference, qd, Some fd, xd)]]"
      using n by (auto simp: Collection_NOT_def assms(7) append_last_def k3)
    have g2: "refresh_grouping all [(None, qc, Some fc, xc), (Some difference, qd, Some fd, xd)]
        res = Inr (Some (Some (C - D)))" for res
      by (simp add: assms(6,8) difference_def)
    show ?thesis by (simp add: Collection_refresh_def k4 g1 g2 del: refresh_grouping.simps)
  qed
  have Q: "\<exists>u5. Collection_refresh all u4 = Inr u5 \<and> data u5 = Some ((A \<inter> B) \<union> (all - D))"
    if o: "Collection_OR resolve k2 [] = Inr u3" and n: "Collection_NOT resolve u3 d = Inr u4"
  proof -
    have u3: "constraints u3 =
        Some [[(None, qa, Some fa, xa), (Some intersection, qb, Some fb, xb)],
              [(None, (None, None, None), None, PNone)]]"
      using o by (auto simp: Collection_OR_def append_grouping_def k2)
    have u4: "constraints u4 =
        Some [[(None, qa, Some fa, xa), (Some intersection, qb, Some fb, xb)],
              [(None, (None, None, None), None, PNone), (Some difference, qd, Some fd, xd)]]"
      using n by (auto simp: Collection_NOT_def assms(7) append_last_def u3)
    have g2: "refresh_grouping all
        [(None, (None, None, None), None, PNone), (Some difference, qd, Some fd, xd)] res
        = Inr (Some (Some (all - D)))" for res
      by (simp add: assms(8) difference_def)
    show ?thesis by (simp add: Collection_refresh_def u4 g1 g2 del: refresh_grouping.simps)
  qed
  show ?thesis using P Q by blast
qed


theorem Collection_refresh_DNF_witness:
  "\<exists>k1 k2 k3 k4 k5.
     Collection_init (\<lambda>n. Inr ((Some n, None, None),
        (\<lambda>x. Inr (Some (if n = ''a'' then {1, 2, 3} else if n = ''b'' then {2, 3, 4}
                            else if n = ''c'' then {5, 6} else {6}))), PNone)) (Some ''a'') = Inr k1 \<and>
     Collection_AND (\<lambda>n. Inr ((Some n, None, None),
        (\<lambda>x. Inr (Some (if n = ''a'' then {1, 2, 3} else if n = ''b'' then {2, 3, 4}
                            else if n = ''c'' then {5, 6} else {6}))), PNone)) k1 ''b'' = Inr k2 \<and>
     Collection_OR (\<lambda>n. Inr ((Some n, None, None),
        (\<lambda>x. Inr (Some (if n = ''a'' then {1, 2, 3} else if n = ''b'' then {2, 3, 4}
                            else if n = ''c'' then {5, 6} else {6}))), PNone)) k2 ''c'' = Inr k3 \<and>
     Collection_NOT (\<lambda>n. Inr ((Some n, None, None),
        (\<lambda>x. Inr (Some (if n = ''a'' then {1, 2, 3} else if n = ''b'' then {2, 3, 4}
                            else if n = ''c'' then {5, 6} else {6}))), PNone)) k3 ''d'' = Inr k4 \<and>
     Collection_refresh {1, 2, 3, 4, 5, 6, 7} k4 = Inr k5 \<and>
     data k5 = Some (({1, 2, 3} \<inter> {2, 3, 4}) \<union> ({5, 6} - {6}))"
proof -
  define R :: resolver where "R = (\<lambda>n. Inr ((Some n, None, None),
        (\<lambda>x. Inr (Some (if n = ''a'' then {1, 2, 3} else if n = ''b'' then {2, 3, 4}
                            else if n = ''c'' then {5, 6} else {6}))), PNone))"
  define f :: "string \<Rightarrow> search" where "f = (\<lambda>n x. Inr (Some (if n = ''a'' then {1, 2, 3}
    else if n = ''b'' then {2, 3, 4} else if n = ''c'' then {5, 6} else {6})))"
  have R: "R n = Inr ((Some n, None, None), f n, PNone)" for n by (simp add: R_def f_def)
  have fa: "f ''a'' PNone = Inr (Some {1, 2, 3})" by (simp add: f_def)
  have fb: "f ''b'' PNone = Inr (Some {2, 3, 4})" by (simp add: f_def)
  have fc: "f ''c'' PNone = Inr (Some {5, 6})" by (simp add: f_def)
  have fd: "f ''d'' PNone = Inr (Some {6})" by (simp add: f_def)
  obtain k1 where k1: "Collection_init R (Some ''a'') = Inr k1"
    by (simp add: Collection_init_def R)
  then have c1: "constraints k1 \<noteq> None \<and> constraints k1 \<noteq> Some []"
    by (auto simp: Collection_init_def R)
  then obtain k2 where k2: "Collection_AND R k1 ''b'' = Inr k2"
    by (auto simp: Collection_AND_def R append_last_def)
  then have c2: "constraints k2 \<noteq> None"
    using c1 by (auto simp: Collection_AND_def R append_last_def)
  then obtain k3 where k3: "Collection_OR R k2 ''c'' = Inr k3"
    by (auto simp: Collection_OR_def R append_grouping_def)
  then have c3: "constraints k3 \<noteq> None \<and> constraints k3 \<noteq> Some []"
    using c2 by (auto simp: Collection_OR_def R append_grouping_def)
  then obtain k4 where k4: "Collection_NOT R k3 ''d'' = Inr k4"
    by (auto simp: Collection_NOT_def R append_last_def)
  have pre: "''c'' \<noteq> [] \<and> Collection_OR R k2 ''c'' = Inr k3 \<and> Collection_NOT R k3 ''d'' = Inr k4"
    using k3 k4 by simp
  from Collection_refresh_DNF[OF R fa R fb R fc R fd k1 k2, THEN conjunct1, rule_format, OF pre]
  obtain k5 where "Collection_refresh {1, 2, 3, 4, 5, 6, 7} k4 = Inr k5"
    "data k5 = Some (({1, 2, 3} \<inter> {2, 3, 4}) \<union> ({5, 6} - {6}))"
    by blast
  then show ?thesis using k1 k2 k3 k4 unfolding R_def by blast
qed

section \<open>Allocation of resource identifiers\<close>

lemma Catalog_generate_rid_fresh:
  "Catalog_generate_rid c rand = Some (r, c', rand') \<Longrightarrow>
     r \<notin> cat_rids c \<and> cat_rids c' = cat_rids c \<and> ridtimes c' = ridtimes c \<and>
     resources c' = resources c \<and> indices c' = indices c"
proof (induction c rand rule: Catalog_generate_rid.induct)
  case (1 c rand)
  show ?case
  proof (cases "v_nextrid c")
    case None
    then show ?thesis
      using "1.prems" "1.IH"(1)
      by (cases rand) (auto simp: Catalog_generate_rid.simps[of c])
  next
    case (Some n)
    show ?thesis
    proof (cases "n \<in> cat_rids c")
      case True
      then show ?thesis
        using "1.prems" "1.IH"(2)[OF Some refl] Some
        by (auto simp: Catalog_generate_rid.simps[of c] Let_def)
    next
      case False
      then show ?thesis
        using "1.prems" Some by (auto simp: Catalog_generate_rid.simps[of c] Let_def)
    qed
  qed
qed

text \<open>
  C8.  \<open>_generate_rid\<close> should return a rid in \<open>[0, 2^31)\<close>.  On an empty catalog, when
  \<^verbatim>\<open>random.randint(0, 2**31)\<close> draws its upper end, the rid returned is \<open>2^31\<close>; and with
  \<open>_v_nextrid\<close> left at \<open>2^31\<close> by the allocation of \<open>2^31 - 1\<close>, the next rid is \<open>2^31\<close>
  with no draw at all.
\<close>

theorem Catalog_generate_rid_out_of_range:
  "(case Catalog_generate_rid
      \<lparr>indices = [], ridtimes = [], resources = Map.empty, cat_rids = {}, v_nextrid = None\<rparr>
      [2 ^ 31] of
      Some (r, c', rand') \<Rightarrow> r = 2 ^ 31 \<and> \<not> valid_rid r
    | None \<Rightarrow> False) \<and>
   (case Catalog_generate_rid
      \<lparr>indices = [], ridtimes = [], resources = Map.empty, cat_rids = {2 ^ 31 - 1},
       v_nextrid = Some (2 ^ 31)\<rparr>
      [] of
      Some (r, c', rand') \<Rightarrow> r = 2 ^ 31 \<and> \<not> valid_rid r
    | None \<Rightarrow> False)"
  by (simp add: Catalog_generate_rid.simps valid_rid_def Let_def)

text \<open>When it returns, the rid is not in the rid-set.\<close>

lemma Catalog_generate_rid_not_taken:
  "Catalog_generate_rid c rand = Some (r, c', rand') \<Longrightarrow> r \<notin> cat_rids c"
  using Catalog_generate_rid_fresh by blast

text \<open>It returns as soon as a draw is not taken.\<close>

lemma Catalog_generate_rid_returns:
  "v_nextrid c = None \<Longrightarrow> x \<notin> cat_rids c \<Longrightarrow>
     Catalog_generate_rid c (x # rand) = Some (x, c\<lparr>v_nextrid := Some (x + 1)\<rparr>, rand)"
  by (simp add: Catalog_generate_rid.simps Let_def)

section \<open>The invariant of the catalog\<close>




























text \<open>
  The catalog in memory at a raise is another matter; it is what the abort discards.
  With no index installed and \<open>/r\<close> there, \<open>_add_update\<close> on an empty catalog whose
  \<open>_generate_rid\<close> draws \<open>2^31\<close> writes \<open>ridtimes\<close> and raises \<open>TypeError\<close> at
  \<open>resources\<close>: one path, no rid.
\<close>

lemma Catalog_add_update_raise_partial:
  "(case Catalog_add_update (\<lambda>p. Map.empty) [''/r'' \<mapsto> 10]
           \<lparr>indices = [], ridtimes = [], resources = Map.empty, cat_rids = {},
            v_nextrid = None\<rparr> [2147483648] ''/r'' of
      Some (res, rand) \<Rightarrow>
        raised res = Some TypeError \<and>
        ridtimes (state_of res) = [(''/r'', 2147483648, 10)] \<and>
        cat_rids (state_of res) = {} \<and>
        resources (state_of res) 2147483648 = None \<and>
        \<not> catalog_inv (state_of res)
    | None \<Rightarrow> False)"
  by (simp add: Catalog_add_update_def index_resource_def int32_def raised_def state_of_def
      catalog_inv_def)

text \<open>
  With a String index installed, \<open>/a\<close> indexed under rid 1 with the value \<open>''\<close> and \<open>/b\<close>
  under rid 2 with the value \<open>x\<close>, and both paths gone, the unindex pass forgets rid 1,
  takes it out of \<open>resources\<close> and \<open>rids\<close>, and then raises in \<open>String.forget\<close> for rid 2
  before any entry of \<open>ridtimes\<close> is deleted: two paths, one rid.
\<close>

lemma Catalog_unindex_raise_partial:
  "(let c = \<lparr>indices = [(''name'', StringIndex
               (state_of (String_learn (state_of (String_learn (String_new True) 1 (PStr [])))
                  2 (PStr ''x''))))],
             ridtimes = [(''/a'', 1, 10), (''/b'', 2, 10)],
             resources = [1 \<mapsto> [''name'' \<mapsto> PStr []], 2 \<mapsto> [''name'' \<mapsto> PStr ''x'']],
             cat_rids = {1, 2}, v_nextrid = None\<rparr>
    in raised (Catalog_unindex Map.empty c) = Some AttributeError \<and>
       map fst (ridtimes (state_of (Catalog_unindex Map.empty c))) = [''/a'', ''/b''] \<and>
       cat_rids (state_of (Catalog_unindex Map.empty c)) = {2} \<and>
       resources (state_of (Catalog_unindex Map.empty c)) 1 = None)"
  by code_simp

end
